theory Spec2Isabelle
  imports
    Main
    "HOL-Library.AList"
    "HOL-Library.Char_ord"
    "HOL-Library.List_Lexorder"
    "HOL-Library.Multiset"
begin

section \<open>Strings as Python uses them\<close>

text \<open>
  A Python \<^verbatim>\<open>str\<close> is modelled as a \<^typ>\<open>string\<close> of ASCII characters. With
  \<^verbatim>\<open>Char_ord\<close> and \<^verbatim>\<open>List_Lexorder\<close> the order on \<^typ>\<open>string\<close> is the
  lexical order on bytes, which is the order DynamoDB uses for a sort key of type
  \<^verbatim>\<open>S\<close>.
\<close>

text \<open>\<^verbatim>\<open>s.endswith(suf)\<close>\<close>

definition endswith :: "string \<Rightarrow> string \<Rightarrow> bool" where
  "endswith s suf \<longleftrightarrow> length suf \<le> length s \<and> drop (length s - length suf) s = suf"

text \<open>\<^verbatim>\<open>sub in s\<close> for two strings: \<^verbatim>\<open>sub\<close> occurs in \<^verbatim>\<open>s\<close>.\<close>

fun str_in :: "string \<Rightarrow> string \<Rightarrow> bool" where
  "str_in sub [] = (sub = [])"
| "str_in sub (c # cs) = (take (length sub) (c # cs) = sub \<or> str_in sub cs)"

text \<open>\<^verbatim>\<open>s.lower()\<close> on ASCII: the letters A to Z move to a to z, all else stays.\<close>

definition is_upper :: "char \<Rightarrow> bool" where
  "is_upper c \<longleftrightarrow> CHR ''A'' \<le> c \<and> c \<le> CHR ''Z''"

definition lower_char :: "char \<Rightarrow> char" where
  "lower_char c = (if is_upper c then char_of (of_char c + (32::nat)) else c)"

definition lower :: "string \<Rightarrow> string" where
  "lower s = map lower_char s"

section \<open>Module constants and \<^verbatim>\<open>DynamoDbDatabase\<close>\<close>

definition DEV_ETL_NODE :: string where
  "DEV_ETL_NODE = ''dfhdpetl02''"

definition PROD_ETL_NODE :: string where
  "PROD_ETL_NODE = ''dfhdpetl03''"

definition ENDPOINT_URL :: string where
  "ENDPOINT_URL = ''http://localhost:8000''"

record DynamoDbDatabase =
  profile_name :: string
  suffix :: string
  endpoint_url :: string

text \<open>
  \<^verbatim>\<open>DynamoDbDatabase.__init__\<close>. The module reads \<^verbatim>\<open>_ENV_HOST_NAME\<close> from the
  resolver once at import time; here it is the first argument.
\<close>

definition DynamoDbDatabase_init :: "string \<Rightarrow> string option \<Rightarrow> DynamoDbDatabase" where
  "DynamoDbDatabase_init env_host_name url =
     \<lparr> profile_name = ''default'',
       suffix = (if str_in DEV_ETL_NODE env_host_name then ''_dev''
                 else if str_in PROD_ETL_NODE env_host_name then ''_prod''
                 else ''_dev''),
       endpoint_url = (case url of Some u \<Rightarrow> u | None \<Rightarrow> ENDPOINT_URL) \<rparr>"

section \<open>\<^verbatim>\<open>DynamoDbTable\<close>: name resolution\<close>

definition get_complete_name :: "DynamoDbDatabase \<Rightarrow> string \<Rightarrow> string" where
  "get_complete_name self table_name =
     (if endswith table_name (suffix self) then table_name
      else table_name @ suffix self)"

section \<open>Errors, items and the state the client acts on\<close>

text \<open>
  Every exception the modelled code can meet is a value. The first three are
  the remote service's (a \<^verbatim>\<open>ClientError\<close> of botocore); the others are Python's
  own. \<^verbatim>\<open>OSError\<close> stands for whichever of its subclasses \<^verbatim>\<open>open(path, 'w')\<close>
  raises when the path cannot be opened for writing.
\<close>

datatype error =
    ResourceNotFoundException
  | ResourceInUseException
  | ValidationException
  | IndexError
  | ValueError
  | FileNotFoundError
  | OSError

text \<open>
  The item the client writes: \<^verbatim>\<open>{'key': k, 'datetime': d, 'info': {'value': v}}\<close>.
\<close>

record item =
  key :: string
  datetime :: string
  info_value :: string

text \<open>
  The state: the tables of the remote database in the order the service lists
  them, each with its items; the CSV files of the local file system, each as its
  list of rows; the paths that the file system lets \<^verbatim>\<open>open(path, 'w')\<close> open (the
  directory exists, the process may write there, the path is not empty and not
  a directory); and the lines handed to the logger.
\<close>

record world =
  tables :: "(string \<times> item list) list"
  files :: "(string \<times> string list list) list"
  writable :: "string list"
  log :: "string list"

type_synonym 'a result = "(error + 'a) \<times> world"

definition log_info :: "string \<Rightarrow> world \<Rightarrow> world" where
  "log_info msg w = w\<lparr>log := log w @ [msg]\<rparr>"

section \<open>The remote service, as the client sees it through boto3\<close>

text \<open>
  The service is not part of the repository. It is modelled as a sequential
  store that answers at once: a request either fails with the service's error
  and changes nothing, or takes effect before the call returns. A request on a
  table that does not exist fails with \<^verbatim>\<open>ResourceNotFoundException\<close>; on an
  existing table the service checks the request against its limits and fails
  with \<^verbatim>\<open>ValidationException\<close> when a key attribute is the empty string or too
  long, or when the item is too large. A query answers with one page, which ends
  where the items read so far would pass one megabyte. Table names are not
  restricted, and no call fails for reasons of network, throttling or
  permission.
\<close>

text \<open>
  The limits, in bytes: a partition key value has 1 to 2048, a sort key value
  1 to 1024, an item at most 400 KB, a page of a query at most 1 MB.
\<close>

definition MAX_PARTITION_KEY_BYTES :: nat where
  "MAX_PARTITION_KEY_BYTES = 2048"

definition MAX_SORT_KEY_BYTES :: nat where
  "MAX_SORT_KEY_BYTES = 1024"

definition MAX_ITEM_BYTES :: nat where
  "MAX_ITEM_BYTES = 409600"

definition MAX_PAGE_BYTES :: nat where
  "MAX_PAGE_BYTES = 1048576"

definition valid_partition_key :: "string \<Rightarrow> bool" where
  "valid_partition_key k \<longleftrightarrow> 1 \<le> length k \<and> length k \<le> MAX_PARTITION_KEY_BYTES"

definition valid_sort_key :: "string \<Rightarrow> bool" where
  "valid_sort_key d \<longleftrightarrow> 1 \<le> length d \<and> length d \<le> MAX_SORT_KEY_BYTES"

text \<open>A \<^verbatim>\<open>dynamodb.Table\<close> resource: a handle that holds the table's name.\<close>

datatype table_resource = Table (name: string)

text \<open>
  \<^verbatim>\<open>bool(t)\<close> for a handle: the resource class defines neither \<^verbatim>\<open>__bool__\<close>
  nor \<^verbatim>\<open>__len__\<close>, so every handle is truthy.
\<close>

definition truthy :: "table_resource \<Rightarrow> bool" where
  "truthy t = True"

text \<open>\<^verbatim>\<open>[table.name for table in db.tables.all()]\<close>\<close>

definition tables_all :: "world \<Rightarrow> string list" where
  "tables_all w = map fst (tables w)"

text \<open>\<^verbatim>\<open>dynamodb.create_table(TableName=n, ...)\<close>\<close>

definition dynamodb_create_table :: "string \<Rightarrow> world \<Rightarrow> table_resource result" where
  "dynamodb_create_table n w =
     (if n \<in> set (tables_all w) then (Inl ResourceInUseException, w)
      else (Inr (Table n), w\<lparr>tables := tables w @ [(n, [])]\<rparr>))"

text \<open>\<^verbatim>\<open>client.delete_table(TableName=n)\<close>\<close>

definition dynamodb_delete_table :: "string \<Rightarrow> world \<Rightarrow> unit result" where
  "dynamodb_delete_table n w =
     (if n \<in> set (tables_all w) then (Inr (), w\<lparr>tables := AList.delete n (tables w)\<rparr>)
      else (Inl ResourceNotFoundException, w))"

text \<open>
  \<^verbatim>\<open>table.put_item(Item=it)\<close>: the primary key is the pair of \<^verbatim>\<open>key\<close> and
  \<^verbatim>\<open>datetime\<close>, and an item with the same primary key is replaced.
\<close>

datatype put_item_output = PutItemOutput

text \<open>
  The size of an item as the service counts it: the bytes of every attribute
  name and string value, three bytes for the map \<^verbatim>\<open>info\<close> and one for its
  element.
\<close>

definition item_size :: "item \<Rightarrow> nat" where
  "item_size it =
     length ''key'' + length (key it) + length ''datetime'' + length (datetime it)
     + length ''info'' + 3 + (length ''value'' + length (info_value it) + 1)"

definition valid_item :: "item \<Rightarrow> bool" where
  "valid_item it \<longleftrightarrow>
     valid_partition_key (key it) \<and> valid_sort_key (datetime it)
     \<and> item_size it \<le> MAX_ITEM_BYTES"

definition same_primary_key :: "item \<Rightarrow> item \<Rightarrow> bool" where
  "same_primary_key a b \<longleftrightarrow> key a = key b \<and> datetime a = datetime b"

definition table_put_item :: "table_resource \<Rightarrow> item \<Rightarrow> world \<Rightarrow> put_item_output result" where
  "table_put_item t it w =
     (case map_of (tables w) (name t) of
        None \<Rightarrow> (Inl ResourceNotFoundException, w)
      | Some items \<Rightarrow>
          if \<not> valid_item it then (Inl ValidationException, w)
          else
            (Inr PutItemOutput,
             w\<lparr>tables := AList.update (name t)
                   (it # filter (\<lambda>j. \<not> same_primary_key j it) items) (tables w)\<rparr>))"

text \<open>
  \<^verbatim>\<open>table.query(KeyConditionExpression=Key('key').eq(k) [& Key('datetime').gte(d)],
  ScanIndexForward=False [, Limit=n])\<close>: the items of the partition \<^verbatim>\<open>k\<close> (from
  \<^verbatim>\<open>d\<close> on, when a bound is given), by descending sort key, as far as they fit
  in one page, cut after the first \<^verbatim>\<open>n\<close> when a limit is given. \<^verbatim>\<open>Count\<close> is the
  number of items returned. The client never asks for a following page.
\<close>

record response =
  Items :: "item list"
  Count :: nat

definition key_condition :: "string \<Rightarrow> string option \<Rightarrow> item \<Rightarrow> bool" where
  "key_condition k gte it \<longleftrightarrow>
     key it = k \<and> (case gte of None \<Rightarrow> True | Some d \<Rightarrow> d \<le> datetime it)"

definition found_desc :: "string \<Rightarrow> string option \<Rightarrow> item list \<Rightarrow> item list" where
  "found_desc k gte items = rev (sort_key datetime (filter (key_condition k gte) items))"

text \<open>The longest prefix of the items whose sizes add up to at most the budget.\<close>

fun take_page :: "nat \<Rightarrow> item list \<Rightarrow> item list" where
  "take_page budget [] = []"
| "take_page budget (it # its) =
     (if item_size it \<le> budget then it # take_page (budget - item_size it) its else [])"

definition valid_key_condition :: "string \<Rightarrow> string option \<Rightarrow> bool" where
  "valid_key_condition k gte \<longleftrightarrow>
     valid_partition_key k \<and> (case gte of None \<Rightarrow> True | Some d \<Rightarrow> valid_sort_key d)"

definition table_query_desc ::
  "table_resource \<Rightarrow> string \<Rightarrow> string option \<Rightarrow> nat option \<Rightarrow> world \<Rightarrow> error + response" where
  "table_query_desc t k gte limit w =
     (case map_of (tables w) (name t) of
        None \<Rightarrow> Inl ResourceNotFoundException
      | Some items \<Rightarrow>
          if \<not> valid_key_condition k gte then Inl ValidationException
          else
            (let found = take_page MAX_PAGE_BYTES (found_desc k gte items);
                 page = (case limit of None \<Rightarrow> found | Some n \<Rightarrow> take n found)
             in Inr \<lparr> Items = page, Count = length page \<rparr>))"

section \<open>\<^verbatim>\<open>datetime.strptime(s, '%Y%m%d')\<close> and \<^verbatim>\<open>isoformat\<close>\<close>

text \<open>
  CPython turns the format into the regular expression
  \<^verbatim>\<open>(?P<Y>\d\d\d\d)(?P<m>1[0-2]|0[1-9]|[1-9])(?P<d>3[0-1]|[1-2]\d|0[1-9]|[1-9]| [1-9])\<close>,
  takes its first match at the start of the string (alternatives in the order
  written, with backtracking), raises \<^verbatim>\<open>ValueError\<close> when there is none or when
  text remains after the match, and then builds the \<^verbatim>\<open>datetime\<close>, which raises
  \<^verbatim>\<open>ValueError\<close> for year 0 and for a day the month does not have. Each
  directive below lists its matches, as value and rest, in the order the
  matcher tries them.
\<close>

definition in_range :: "char \<Rightarrow> char \<Rightarrow> char \<Rightarrow> bool" where
  "in_range lo hi c \<longleftrightarrow> lo \<le> c \<and> c \<le> hi"

definition is_digit :: "char \<Rightarrow> bool" where
  "is_digit c \<longleftrightarrow> in_range CHR ''0'' CHR ''9'' c"

definition digit_val :: "char \<Rightarrow> nat" where
  "digit_val c = of_char c - 48"

definition two_chars :: "(char \<Rightarrow> bool) \<Rightarrow> (char \<Rightarrow> bool) \<Rightarrow> string \<Rightarrow> (nat \<times> string) list" where
  "two_chars p q s =
     (case s of
        a # b # rest \<Rightarrow> if p a \<and> q b then [(10 * digit_val a + digit_val b, rest)] else []
      | _ \<Rightarrow> [])"

definition one_char :: "(char \<Rightarrow> bool) \<Rightarrow> string \<Rightarrow> (nat \<times> string) list" where
  "one_char p s = (case s of a # rest \<Rightarrow> if p a then [(digit_val a, rest)] else [] | _ \<Rightarrow> [])"

definition space_char :: "(char \<Rightarrow> bool) \<Rightarrow> string \<Rightarrow> (nat \<times> string) list" where
  "space_char q s =
     (case s of
        a # b # rest \<Rightarrow> if a = CHR '' '' \<and> q b then [(digit_val b, rest)] else []
      | _ \<Rightarrow> [])"

fun directive_Y :: "string \<Rightarrow> (nat \<times> string) list" where
  "directive_Y (a # b # c # d # rest) =
     (if is_digit a \<and> is_digit b \<and> is_digit c \<and> is_digit d
      then [(1000 * digit_val a + 100 * digit_val b + 10 * digit_val c + digit_val d, rest)]
      else [])"
| "directive_Y _ = []"

definition directive_m :: "string \<Rightarrow> (nat \<times> string) list" where
  "directive_m s =
     two_chars (in_range CHR ''1'' CHR ''1'') (in_range CHR ''0'' CHR ''2'') s
     @ two_chars (in_range CHR ''0'' CHR ''0'') (in_range CHR ''1'' CHR ''9'') s
     @ one_char (in_range CHR ''1'' CHR ''9'') s"

definition directive_d :: "string \<Rightarrow> (nat \<times> string) list" where
  "directive_d s =
     two_chars (in_range CHR ''3'' CHR ''3'') (in_range CHR ''0'' CHR ''1'') s
     @ two_chars (in_range CHR ''1'' CHR ''2'') is_digit s
     @ two_chars (in_range CHR ''0'' CHR ''0'') (in_range CHR ''1'' CHR ''9'') s
     @ one_char (in_range CHR ''1'' CHR ''9'') s
     @ space_char (in_range CHR ''1'' CHR ''9'') s"

definition regex_Ymd :: "string \<Rightarrow> (nat \<times> nat \<times> nat \<times> string) list" where
  "regex_Ymd s =
     concat (map (\<lambda>(y, r0).
       concat (map (\<lambda>(m, r1).
         map (\<lambda>(d, r2). (y, m, d, r2)) (directive_d r1)) (directive_m r0))) (directive_Y s))"

text \<open>A naive \<^verbatim>\<open>datetime.datetime\<close> (no \<^verbatim>\<open>tzinfo\<close>, no microseconds).\<close>

record pydatetime =
  year :: nat
  month :: nat
  day :: nat
  hour :: nat
  minute :: nat
  second :: nat

definition is_leap :: "nat \<Rightarrow> bool" where
  "is_leap y \<longleftrightarrow> y mod 4 = 0 \<and> (y mod 100 \<noteq> 0 \<or> y mod 400 = 0)"

definition days_in_month :: "nat \<Rightarrow> nat \<Rightarrow> nat" where
  "days_in_month y m =
     (if m = 2 then (if is_leap y then 29 else 28)
      else if m = 4 \<or> m = 6 \<or> m = 9 \<or> m = 11 then 30 else 31)"

definition strptime_Ymd :: "string \<Rightarrow> error + pydatetime" where
  "strptime_Ymd s =
     (case regex_Ymd s of
        [] \<Rightarrow> Inl ValueError
      | (y, m, d, rest) # _ \<Rightarrow>
          if rest \<noteq> [] then Inl ValueError
          else if 1 \<le> y \<and> d \<le> days_in_month y m
          then Inr \<lparr> year = y, month = m, day = d, hour = 0, minute = 0, second = 0 \<rparr>
          else Inl ValueError)"

text \<open>
  \<^verbatim>\<open>'%04d-%02d-%02dT%02d:%02d:%02d'\<close>, for a year below 10000 and the other
  fields below 100, as a \<^verbatim>\<open>datetime\<close> has them.
\<close>

definition digit_char :: "nat \<Rightarrow> char" where
  "digit_char n = char_of (48 + n mod 10)"

definition fmt02d :: "nat \<Rightarrow> string" where
  "fmt02d n = [digit_char (n div 10), digit_char n]"

definition fmt04d :: "nat \<Rightarrow> string" where
  "fmt04d n = [digit_char (n div 1000), digit_char (n div 100), digit_char (n div 10), digit_char n]"

definition isoformat :: "pydatetime \<Rightarrow> string" where
  "isoformat d =
     fmt04d (year d) @ ''-'' @ fmt02d (month d) @ ''-'' @ fmt02d (day d)
     @ ''T'' @ fmt02d (hour d) @ '':'' @ fmt02d (minute d) @ '':'' @ fmt02d (second d)"

section \<open>\<^verbatim>\<open>DynamoDbTable\<close>: tables\<close>

definition get_table_resource :: "DynamoDbDatabase \<Rightarrow> string \<Rightarrow> table_resource" where
  "get_table_resource self table_name = Table (get_complete_name self table_name)"

definition if_table_exists :: "DynamoDbDatabase \<Rightarrow> string \<Rightarrow> world \<Rightarrow> bool" where
  "if_table_exists self table_name w \<longleftrightarrow>
     get_complete_name self table_name \<in> set (tables_all w)"

definition delete_table :: "DynamoDbDatabase \<Rightarrow> string \<Rightarrow> world \<Rightarrow> unit result" where
  "delete_table self table_name w =
     (let complete_name = get_complete_name self table_name in
      if if_table_exists self table_name w then
        (case dynamodb_delete_table complete_name w of
           (Inl e, w1) \<Rightarrow> (Inl e, w1)
         | (Inr u, w1) \<Rightarrow>
             (Inr (), log_info (''KEYSTORE - Table '' @ complete_name
                                 @ '' has been successfully deleted.'') w1))
      else (Inr (), log_info (''KEYSTORE - Table '' @ complete_name @ '' does not exist.'') w))"

definition create_table :: "DynamoDbDatabase \<Rightarrow> string \<Rightarrow> world \<Rightarrow> table_resource option result" where
  "create_table self table_name w =
     (let table_name_low = lower table_name;
          complete_name = get_complete_name self table_name_low in
      if if_table_exists self table_name_low w then
        (Inr None, log_info (''KEYSTORE - Table '' @ complete_name @ '' already exists.'') w)
      else
        (case dynamodb_create_table complete_name w of
           (Inl e, w1) \<Rightarrow> (Inl e, w1)
         | (Inr table, w1) \<Rightarrow>
             (Inr (Some table),
              log_info (''KEYSTORE - Table '' @ complete_name @ '' has been created.'') w1)))"

section \<open>\<^verbatim>\<open>DynamoDbTable\<close>: items\<close>

text \<open>
  \<^verbatim>\<open>put_item_into_table\<close>. The string \<^verbatim>\<open>datetime_now\<close> is what the body computes
  from the system clock, \<^verbatim>\<open>str(datetime.now(timezone.utc).astimezone(tz=pytz.timezone(
  'US/Central')).isoformat())\<close>; the clock and the time zone database are outside
  the program, so it is an argument here.
\<close>

definition put_item_into_table ::
  "DynamoDbDatabase \<Rightarrow> string \<Rightarrow> string \<Rightarrow> string \<Rightarrow> string \<Rightarrow> world \<Rightarrow> put_item_output option result" where
  "put_item_into_table self table_name k v datetime_now w =
     (let table_name_low = lower table_name;
          complete_name = get_complete_name self table_name_low;
          table = get_table_resource self complete_name in
      if truthy table then
        (case table_put_item table \<lparr> key = k, datetime = datetime_now, info_value = v \<rparr> w of
           (Inl e, w1) \<Rightarrow> (Inl e, w1)
         | (Inr response, w1) \<Rightarrow>
             (Inr (Some response),
              log_info ''KEYSTORE - A new item has been added to the table.'' w1))
      else (Inr None, log_info ''KEYSTORE - Provided table does not exist.'' w))"

definition get_latest_item_value ::
  "DynamoDbDatabase \<Rightarrow> string \<Rightarrow> string \<Rightarrow> world \<Rightarrow> string option result" where
  "get_latest_item_value self table_name k w =
     (let complete_name = get_complete_name self table_name;
          table = get_table_resource self complete_name in
      if truthy table then
        (case table_query_desc table k None (Some 1) w of
           Inl e \<Rightarrow> (Inl e, w)
         | Inr response \<Rightarrow>
             if Count response = 0
             then (Inr None, log_info ''KEYSTORE - No values found with provided key'' w)
             else (case Items response of
                     [] \<Rightarrow> (Inl IndexError, w)
                   | it # _ \<Rightarrow> (Inr (Some (info_value it)), w)))
      else (Inr None, log_info ''KEYSTORE - Provided table does not exist in the database.'' w))"

definition get_items_greater_than_date ::
  "DynamoDbDatabase \<Rightarrow> string \<Rightarrow> string \<Rightarrow> string \<Rightarrow> world \<Rightarrow> item list option result" where
  "get_items_greater_than_date self table_name k yyyymmdd w =
     (let complete_name = get_complete_name self table_name in
      case strptime_Ymd yyyymmdd of
        Inl e \<Rightarrow> (Inl e, w)
      | Inr d \<Rightarrow>
          (let from_yyyymmdd = isoformat d;
               table = get_table_resource self complete_name in
           if truthy table then
             (case table_query_desc table k (Some from_yyyymmdd) None w of
                Inl e \<Rightarrow> (Inl e, w)
              | Inr response \<Rightarrow>
                  if Count response = 0
                  then (Inr None, log_info ''KEYSTORE - No values were found.'' w)
                  else (Inr (Some (Items response)), w))
           else (Inr None,
                 log_info ''KEYSTORE - Provided table does not exist in the database.'' w)))"

section \<open>\<^verbatim>\<open>DynamoDbTable\<close>: CSV import and export\<close>

text \<open>\<^verbatim>\<open>row[i]\<close> on a list: \<^verbatim>\<open>IndexError\<close> past the end.\<close>

definition index :: "'a list \<Rightarrow> nat \<Rightarrow> error + 'a" where
  "index xs i = (if i < length xs then Inr (xs ! i) else Inl IndexError)"

text \<open>The body of the \<^verbatim>\<open>for row in csv_reader\<close> loop, for one row.\<close>

definition import_row :: "DynamoDbDatabase \<Rightarrow> string list \<Rightarrow> world \<Rightarrow> unit result" where
  "import_row self row w =
     (case index row 0 of
        Inl e \<Rightarrow> (Inl e, w)
      | Inr r0 \<Rightarrow>
          (let table = r0 @ suffix self;
               (created, w1) =
                  (if \<not> if_table_exists self table w then create_table self table w
                   else (Inr None, w))
           in case created of
                Inl e \<Rightarrow> (Inl e, w1)
              | Inr _ \<Rightarrow>
                  (case index row 1 of
                     Inl e \<Rightarrow> (Inl e, w1)
                   | Inr k \<Rightarrow>
                       (case index row 2 of
                          Inl e \<Rightarrow> (Inl e, w1)
                        | Inr v \<Rightarrow>
                            (case index row 3 of
                               Inl e \<Rightarrow> (Inl e, w1)
                             | Inr r3 \<Rightarrow>
                                 (case strptime_Ymd r3 of
                                    Inl e \<Rightarrow> (Inl e, w1)
                                  | Inr d \<Rightarrow>
                                      (let date_yyyymmdd = isoformat d in
                                       case table_put_item (get_table_resource self table)
                                              \<lparr> key = k, datetime = date_yyyymmdd,
                                                info_value = v \<rparr> w1 of
                                         (Inl e, w2) \<Rightarrow> (Inl e, w2)
                                       | (Inr _, w2) \<Rightarrow>
                                           (Inr (),
                                            log_info (''KEYSTORE - Item: '' @ k
                                              @ '' has been added into '' @ table
                                              @ '' table.'') w2))))))))"

text \<open>The loop itself: it stops at the first row that raises.\<close>

fun import_loop :: "DynamoDbDatabase \<Rightarrow> string list list \<Rightarrow> nat \<Rightarrow> world \<Rightarrow> nat result" where
  "import_loop self [] line_count w = (Inr line_count, w)"
| "import_loop self (row # rows) line_count w =
     (case import_row self row w of
        (Inl e, w1) \<Rightarrow> (Inl e, w1)
      | (Inr _, w1) \<Rightarrow> import_loop self rows (line_count + 1) w1)"

definition import_data_from_csv :: "DynamoDbDatabase \<Rightarrow> string \<Rightarrow> world \<Rightarrow> unit result" where
  "import_data_from_csv self csv_file_name w =
     (case map_of (files w) csv_file_name of
        None \<Rightarrow> (Inl FileNotFoundError, w)
      | Some rows \<Rightarrow>
          (case import_loop self rows 0 w of
             (Inl e, w1) \<Rightarrow> (Inl e, w1)
           | (Inr _, w1) \<Rightarrow>
               (Inr (),
                log_info (''KEYSTORE - CSV File: '' @ csv_file_name
                  @ '' content has been successfully imported into DynamoDb Tables.'') w1)))"

text \<open>
  The \<^verbatim>\<open>for x in range(count)\<close> loop of \<^verbatim>\<open>export_data_to_csv\<close>; the first
  argument counts the iterations left. After the loop the function opens the
  file for writing, which raises when the file system does not let it, and
  writes the header and the rows.
\<close>

primrec export_loop :: "nat \<Rightarrow> string \<Rightarrow> response \<Rightarrow> string list list \<Rightarrow> error + string list list" where
  "export_loop 0 complete_name response data = Inr data"
| "export_loop (Suc n) complete_name response data =
     (case Items response of
        [] \<Rightarrow> Inl IndexError
      | it # _ \<Rightarrow>
          export_loop n complete_name response
            (data @ [[complete_name, key it, info_value it, datetime it]]))"

definition export_data_to_csv ::
  "DynamoDbDatabase \<Rightarrow> string \<Rightarrow> string \<Rightarrow> string \<Rightarrow> world \<Rightarrow> unit result" where
  "export_data_to_csv self table_name k csv_file_name w =
     (let complete_name = get_complete_name self table_name;
          table = get_table_resource self complete_name in
      if truthy table then
        (case table_query_desc table k None None w of
           Inl e \<Rightarrow> (Inl e, w)
         | Inr response \<Rightarrow>
             if Count response = 0
             then (Inr (), log_info ''KEYSTORE - No values found with provided key'' w)
             else
               (let count = Count response;
                    header = [''table'', ''key'', ''value'', ''datetime_yyyymmdd'']
                in case export_loop count complete_name response [] of
                     Inl e \<Rightarrow> (Inl e, w)
                   | Inr data \<Rightarrow>
                       if csv_file_name \<notin> set (writable w) then (Inl OSError, w)
                       else
                         (Inr (),
                          log_info (''KEYSTORE - CSV File: '' @ csv_file_name
                                     @ '' has been exported.'')
                            (w\<lparr>files := AList.update csv_file_name (header # data)
                                            (files w)\<rparr>))))
      else (Inr (), log_info ''KEYSTORE - Provided table does not exist in the database.'' w))"

section \<open>Example states\<close>

definition dev_db :: DynamoDbDatabase where
  "dev_db = DynamoDbDatabase_init ''laptop'' None"

definition two_orders :: "item list" where
  "two_orders =
     [\<lparr> key = ''o1'', datetime = ''2023-01-01T00:00:00'', info_value = ''100'' \<rparr>,
      \<lparr> key = ''o1'', datetime = ''2023-01-02T00:00:00'', info_value = ''150'' \<rparr>]"

definition orders_world :: world where
  "orders_world = \<lparr> tables = [(''orders_dev'', two_orders)], files = [], writable = [''out.csv''], log = [] \<rparr>"

section \<open>The dates a caller passes as \<^verbatim>\<open>YYYYMMDD\<close>\<close>

text \<open>
  The decimal value of a string of digits, and the strings that are a calendar
  date written as four digits of year, two of month and two of day.
\<close>

definition number :: "string \<Rightarrow> nat" where
  "number s = foldl (\<lambda>n c. 10 * n + digit_val c) 0 s"

definition is_yyyymmdd :: "string \<Rightarrow> bool" where
  "is_yyyymmdd s \<longleftrightarrow>
     length s = 8 \<and> list_all is_digit s
     \<and> 1 \<le> number (take 4 s)
     \<and> 1 \<le> number (take 2 (drop 4 s)) \<and> number (take 2 (drop 4 s)) \<le> 12
     \<and> 1 \<le> number (drop 6 s)
     \<and> number (drop 6 s) \<le> days_in_month (number (take 4 s)) (number (take 2 (drop 4 s)))"

text \<open>
  A partition that does not fit in one page: four items of the key \<^verbatim>\<open>o1\<close>, each
  with a value of 400000 bytes.
\<close>

definition big_value :: string where
  "big_value = replicate 400000 CHR ''x''"

definition big_item :: "string \<Rightarrow> item" where
  "big_item d = \<lparr> key = ''o1'', datetime = d, info_value = big_value \<rparr>"

definition big_orders :: "item list" where
  "big_orders =
     [big_item ''2023-01-01T00:00:00'', big_item ''2023-01-02T00:00:00'',
      big_item ''2023-01-03T00:00:00'', big_item ''2023-01-04T00:00:00'']"

definition big_world :: world where
  "big_world =
     \<lparr> tables = [(''orders_dev'', big_orders)], files = [], writable = [''out.csv''],
       log = [] \<rparr>"

text \<open>
  Two tables whose names differ in case only, the one with the capital letter
  holding an item.
\<close>

definition seen_item :: item where
  "seen_item = \<lparr> key = ''o1'', datetime = ''2023-01-01T00:00:00'', info_value = ''seen'' \<rparr>"

definition mixed_world :: world where
  "mixed_world =
     \<lparr> tables = [(''orders_dev'', []), (''Orders_dev'', [seen_item])], files = [],
       writable = [''out.csv''], log = [] \<rparr>"

text \<open>
  The state in which the loop body reads the columns after the first: the row's
  table has been looked for and, if absent, created.
\<close>

definition row_table_ensured :: "DynamoDbDatabase \<Rightarrow> string \<Rightarrow> world \<Rightarrow> world" where
  "row_table_ensured self r0 w =
     (if \<not> if_table_exists self (r0 @ suffix self) w
      then snd (create_table self (r0 @ suffix self) w) else w)"

definition short_row_world :: world where
  "short_row_world =
     \<lparr> tables = [],
       files = [(''in.csv'', [[''orders'', ''o1'', ''100'', ''20230101''],
                              [''orders'', ''o1''],
                              [''orders'', ''o1'', ''150'', ''20230102'']])],
       writable = [''out.csv''], log = [] \<rparr>"

definition undated_row_world :: world where
  "undated_row_world =
     \<lparr> tables = [],
       files = [(''in.csv'', [[''orders'', ''o1'', ''100'', ''20230101''],
                              [''orders'', ''o1'', ''125'', ''2023-01-01''],
                              [''orders'', ''o1'', ''150'', ''20230102'']])],
       writable = [''out.csv''], log = [] \<rparr>"

definition five_column_world :: world where
  "five_column_world =
     \<lparr> tables = [],
       files = [(''in.csv'', [[''orders'', ''o1'', ''100'', ''20230101'', ''extra''],
                              [''orders'', ''o1'', ''150'', ''20230102'']])],
       writable = [''out.csv''], log = [] \<rparr>"

definition empty_world :: world where
  "empty_world = \<lparr> tables = [], files = [], writable = [''out.csv''], log = [] \<rparr>"

definition suffixed_name_world :: world where
  "suffixed_name_world =
     \<lparr> tables = [],
       files = [(''in.csv'', [[''orders_dev'', ''o1'', ''100'', ''20230101'']])],
       writable = [''out.csv''], log = [] \<rparr>"

section \<open>Facts about name resolution\<close>

lemma endswith_append: "endswith (s @ suf) suf"
  by (simp add: endswith_def)

lemma endswith_complete_name: "endswith (get_complete_name self t) (suffix self)"
  by (simp add: get_complete_name_def endswith_append)

lemma suffix_init_cases:
  "suffix (DynamoDbDatabase_init h u) = ''_dev'' \<or> suffix (DynamoDbDatabase_init h u) = ''_prod''"
  by (simp add: DynamoDbDatabase_init_def)

text \<open>
  Claim C6. For every host name, endpoint and logical table name \<open>t\<close>, the resolved
  name is \<open>t\<close> followed by the active suffix exactly when \<open>t\<close> does not already end
  with that suffix, it is \<open>t\<close> itself exactly when \<open>t\<close> does, and resolving a second
  time changes nothing.
\<close>

theorem get_complete_name_appends_iff_idempotent:
  fixes h :: string and u :: "string option" and t :: string
  defines "self \<equiv> DynamoDbDatabase_init h u"
  shows "(get_complete_name self t = t @ suffix self \<longleftrightarrow> \<not> endswith t (suffix self))
       \<and> (get_complete_name self t = t \<longleftrightarrow> endswith t (suffix self))
       \<and> get_complete_name self (get_complete_name self t) = get_complete_name self t"
proof -
  have ne: "suffix self \<noteq> []"
    using suffix_init_cases [of h u] by (auto simp: self_def)
  have idem: "get_complete_name self (get_complete_name self t) = get_complete_name self t"
    using endswith_complete_name [of self t] by (simp add: get_complete_name_def)
  from ne idem show ?thesis
    by (simp add: get_complete_name_def)
qed

theorem get_complete_name_appends_iff_idempotent_witness:
  "get_complete_name (DynamoDbDatabase_init ''dfhdpetl03.example'' None) ''orders'' = ''orders_prod''
 \<and> get_complete_name (DynamoDbDatabase_init ''dfhdpetl03.example'' None) ''orders_prod'' = ''orders_prod''
 \<and> get_complete_name (DynamoDbDatabase_init ''laptop'' None) ''orders'' = ''orders_dev''"
  using get_complete_name_appends_iff_idempotent [of "''dfhdpetl03.example''" None "''orders''"]
  by (simp add: get_complete_name_def endswith_def DynamoDbDatabase_init_def
      DEV_ETL_NODE_def PROD_ETL_NODE_def)

lemma get_complete_name_idem:
  "get_complete_name self (get_complete_name self t) = get_complete_name self t"
  using endswith_complete_name [of self t] by (simp add: get_complete_name_def)

lemma name_get_table_resource [simp]:
  "name (get_table_resource self (get_complete_name self t)) = get_complete_name self t"
  by (simp add: get_table_resource_def get_complete_name_idem)

lemma suffix_dev_db: "suffix dev_db = ''_dev''"
  by (simp add: dev_db_def DynamoDbDatabase_init_def DEV_ETL_NODE_def PROD_ETL_NODE_def)

lemma orders_complete_name: "get_complete_name dev_db ''orders'' = ''orders_dev''"
  by (simp add: get_complete_name_def suffix_dev_db endswith_def)

section \<open>Facts about queries\<close>

lemma set_found_desc: "set (found_desc k gte items) = {i \<in> set items. key_condition k gte i}"
  by (auto simp: found_desc_def)

lemma length_found_desc:
  "length (found_desc k gte items) = length (filter (key_condition k gte) items)"
  by (simp add: found_desc_def)

lemma mset_found_desc: "mset (found_desc k gte items) = mset (filter (key_condition k gte) items)"
  by (simp add: found_desc_def)

lemma sorted_found_desc: "sorted (rev (map datetime (found_desc k gte items)))"
  by (simp add: found_desc_def rev_map [symmetric])

lemma found_desc_head_greatest:
  assumes "found_desc k gte items = it # rest" and "j \<in> set items" and "key_condition k gte j"
  shows "datetime j \<le> datetime it"
proof -
  have "sorted (rev (map datetime rest) @ [datetime it])"
    using sorted_found_desc [of k gte items] assms(1) by simp
  moreover have "j \<in> set (it # rest)"
    using assms set_found_desc [of k gte items] by simp
  ultimately show ?thesis
    by (auto simp: sorted_append)
qed

lemma key_condition_None: "key_condition k None i \<longleftrightarrow> key i = k"
  by (simp add: key_condition_def)

lemma key_condition_Some: "key_condition k (Some d) i \<longleftrightarrow> key i = k \<and> d \<le> datetime i"
  by (simp add: key_condition_def)

lemma sum_size_found_desc:
  "sum_list (map item_size (found_desc k gte items))
     = sum_list (map item_size (filter (key_condition k gte) items))"
proof -
  have "mset (map item_size (found_desc k gte items))
          = mset (map item_size (filter (key_condition k gte) items))"
    by (simp add: mset_found_desc)
  then show ?thesis
    by (metis sum_mset_sum_list)
qed

subsection \<open>One page of a query\<close>

lemma take_page_fits: "sum_list (map item_size xs) \<le> budget \<Longrightarrow> take_page budget xs = xs"
  by (induction xs arbitrary: budget) auto

lemma take_page_is_take: "take_page budget xs = take (length (take_page budget xs)) xs"
  by (induction xs arbitrary: budget) auto

lemma length_take_page: "length (take_page budget xs) \<le> length xs"
  by (induction xs arbitrary: budget) auto

lemma set_take_page: "set (take_page budget xs) \<subseteq> set xs"
  using set_take_subset [of "length (take_page budget xs)" xs] take_page_is_take [of budget xs]
  by simp

lemma take_page_head:
  "item_size it \<le> budget \<Longrightarrow> \<exists>more. take_page budget (it # its) = it # more"
  by simp

lemma sorted_rev_take:
  assumes "sorted (rev xs)"
  shows "sorted (rev (take n xs))"
proof -
  have "xs = take n xs @ drop n xs"
    by simp
  then have "rev xs = rev (drop n xs) @ rev (take n xs)"
    by (metis rev_append)
  with assms show ?thesis
    by (metis sorted_append)
qed

lemma sorted_take_page:
  "sorted (rev (map datetime xs)) \<Longrightarrow> sorted (rev (map datetime (take_page budget xs)))"
  using sorted_rev_take [of "map datetime xs" "length (take_page budget xs)"]
    take_page_is_take [of budget xs]
  by (simp add: take_map)

lemma valid_item_fits_page: "valid_item it \<Longrightarrow> item_size it \<le> MAX_PAGE_BYTES"
  by (simp add: valid_item_def MAX_ITEM_BYTES_def MAX_PAGE_BYTES_def)

lemma table_query_desc_Some:
  "map_of (tables w) (name t) = Some items \<Longrightarrow> valid_key_condition k gte \<Longrightarrow>
   table_query_desc t k gte limit w =
     Inr \<lparr> Items = (case limit of None \<Rightarrow> take_page MAX_PAGE_BYTES (found_desc k gte items)
                      | Some n \<Rightarrow> take n (take_page MAX_PAGE_BYTES (found_desc k gte items))),
           Count = length (case limit of
                             None \<Rightarrow> take_page MAX_PAGE_BYTES (found_desc k gte items)
                           | Some n \<Rightarrow> take n (take_page MAX_PAGE_BYTES (found_desc k gte items))) \<rparr>"
  by (simp add: table_query_desc_def Let_def)

lemma table_query_desc_invalid:
  "map_of (tables w) (name t) = Some items \<Longrightarrow> \<not> valid_key_condition k gte \<Longrightarrow>
   table_query_desc t k gte limit w = Inl ValidationException"
  by (simp add: table_query_desc_def)

lemma table_query_desc_None:
  "map_of (tables w) (name t) = None \<Longrightarrow>
   table_query_desc t k gte limit w = Inl ResourceNotFoundException"
  by (simp add: table_query_desc_def)

text \<open>A key under which a valid item is stored is a key the service accepts.\<close>

lemma stored_key_valid:
  "\<forall>i\<in>set items. valid_item i \<Longrightarrow> i \<in> set items \<Longrightarrow> valid_partition_key (key i)"
  by (simp add: valid_item_def)

section \<open>CSV export\<close>

lemma export_loop_replicate:
  "Items response = it # rest \<Longrightarrow>
   export_loop n cn response data =
     Inr (data @ replicate n [cn, key it, info_value it, datetime it])"
proof (induction n arbitrary: data)
  case 0
  then show ?case by simp
next
  case (Suc n)
  then show ?case by (simp add: replicate_app_Cons_same)
qed

text \<open>
  What the export does once the query has answered with a page that is not
  empty: as many rows as the page has items, all of them its first item.
\<close>

lemma export_data_to_csv_page:
  assumes tab: "map_of (tables w) (get_complete_name self t) = Some items"
    and k: "valid_partition_key k"
    and page: "take_page MAX_PAGE_BYTES (found_desc k None items) = it # rest"
  shows "export_data_to_csv self t k csv_file_name w =
           (if csv_file_name \<notin> set (writable w) then (Inl OSError, w)
            else (Inr (),
                  log_info (''KEYSTORE - CSV File: '' @ csv_file_name @ '' has been exported.'')
                    (w\<lparr>files := AList.update csv_file_name
                          ([''table'', ''key'', ''value'', ''datetime_yyyymmdd'']
                           # replicate (Suc (length rest))
                               [get_complete_name self t, key it, info_value it, datetime it])
                          (files w)\<rparr>)))"
proof -
  have vk: "valid_key_condition k None"
    using k by (simp add: valid_key_condition_def)
  have q: "table_query_desc (get_table_resource self (get_complete_name self t)) k None None w
             = Inr \<lparr> Items = it # rest, Count = Suc (length rest) \<rparr>"
    using tab vk page by (simp add: table_query_desc_Some)
  have loop: "export_loop (Suc (length rest)) (get_complete_name self t)
                \<lparr> Items = it # rest, Count = Suc (length rest) \<rparr> []
              = Inr (replicate (Suc (length rest))
                  [get_complete_name self t, key it, info_value it, datetime it])"
    using export_loop_replicate [of "\<lparr> Items = it # rest, Count = Suc (length rest) \<rparr>" it rest]
    by simp
  show ?thesis
    unfolding export_data_to_csv_def Let_def
    using q loop
    by (simp add: truthy_def del: export_loop.simps replicate.simps)
qed

text \<open>
  Claim C1, as the code has it. Let the backing table of \<open>t\<close> hold \<open>N \<ge> 1\<close> items
  under the key, every stored item within the service's limits, and let the
  file system open the file for writing. Then \<^verbatim>\<open>export_data_to_csv\<close> succeeds,
  leaves the tables as they are, and the file it writes is the header row
  followed by exactly \<open>P\<close> rows, where \<open>P\<close> is the number of items in the one page
  the query answers with: at least one, at most \<open>N\<close>, and \<open>N\<close> when the \<open>N\<close> items
  together fit in a page. Each row is the complete table name, key, value and
  datetime of the first item of the query result in descending order of
  datetime.
\<close>

theorem export_data_to_csv_repeats_first:
  assumes tab: "map_of (tables w) (get_complete_name self t) = Some items"
    and valid: "\<forall>i\<in>set items. valid_item i"
    and some: "1 \<le> length (filter (\<lambda>i. key i = k) items)"
    and can_open: "csv_file_name \<in> set (writable w)"
  shows "\<exists>w' P. export_data_to_csv self t k csv_file_name w = (Inr (), w')
      \<and> tables w' = tables w
      \<and> P = length (take_page MAX_PAGE_BYTES
                      (rev (sort_key datetime (filter (\<lambda>i. key i = k) items))))
      \<and> 1 \<le> P \<and> P \<le> length (filter (\<lambda>i. key i = k) items)
      \<and> (sum_list (map item_size (filter (\<lambda>i. key i = k) items)) \<le> MAX_PAGE_BYTES
            \<longrightarrow> P = length (filter (\<lambda>i. key i = k) items))
      \<and> map_of (files w') csv_file_name =
          Some ([''table'', ''key'', ''value'', ''datetime_yyyymmdd'']
                # replicate P
                    (let first = hd (rev (sort_key datetime (filter (\<lambda>i. key i = k) items)))
                     in [get_complete_name self t, key first, info_value first, datetime first]))"
proof -
  let ?match = "filter (\<lambda>i. key i = k) items"
  let ?found = "found_desc k None items"
  have cond: "key_condition k None = (\<lambda>i. key i = k)"
    by (simp add: key_condition_def fun_eq_iff)
  have found_eq: "?found = rev (sort_key datetime ?match)"
    by (simp add: found_desc_def cond)
  have len: "length ?found = length ?match"
    by (simp add: length_found_desc cond)
  with some obtain it more where found: "?found = it # more"
    by (cases ?found) auto
  have "it \<in> set ?found"
    by (simp add: found)
  then have it: "it \<in> set items" "key it = k"
    by (simp_all add: set_found_desc key_condition_None)
  with valid have vit: "valid_item it"
    by blast
  then have k: "valid_partition_key k"
    using it(2) by (simp add: valid_item_def)
  obtain rest where page: "take_page MAX_PAGE_BYTES ?found = it # rest"
    using take_page_head [OF valid_item_fits_page [OF vit], of more] found by auto
  let ?P = "length (take_page MAX_PAGE_BYTES ?found)"
  have P: "?P = Suc (length rest)"
    by (simp add: page)
  have le: "?P \<le> length ?match"
    using length_take_page [of MAX_PAGE_BYTES ?found] len by simp
  have fits: "?P = length ?match"
    if "sum_list (map item_size ?match) \<le> MAX_PAGE_BYTES"
    using that take_page_fits [of ?found MAX_PAGE_BYTES] sum_size_found_desc [of k None items] len
    by (simp add: cond)
  have hd: "hd (rev (sort_key datetime ?match)) = it"
    using found by (simp add: found_eq [symmetric])
  let ?w' = "log_info (''KEYSTORE - CSV File: '' @ csv_file_name @ '' has been exported.'')
               (w\<lparr>files := AList.update csv_file_name
                     ([''table'', ''key'', ''value'', ''datetime_yyyymmdd'']
                      # replicate ?P
                          [get_complete_name self t, key it, info_value it, datetime it])
                     (files w)\<rparr>)"
  have res: "export_data_to_csv self t k csv_file_name w = (Inr (), ?w')"
    using export_data_to_csv_page [OF tab k page, of csv_file_name] can_open
    by (simp add: P)
  have tabs: "tables ?w' = tables w"
    by (simp add: log_info_def)
  have written: "map_of (files ?w') csv_file_name =
      Some ([''table'', ''key'', ''value'', ''datetime_yyyymmdd'']
            # replicate ?P [get_complete_name self t, key it, info_value it, datetime it])"
    by (simp add: log_info_def update_conv')
  have one: "1 \<le> ?P"
    by (simp add: P)
  show ?thesis
    using res tabs written one le fits
    unfolding found_eq hd Let_def
    by blast
qed

lemma valid_two_orders: "\<forall>i\<in>set two_orders. valid_item i"
  by (simp add: two_orders_def valid_item_def valid_partition_key_def valid_sort_key_def
      item_size_def MAX_PARTITION_KEY_BYTES_def MAX_SORT_KEY_BYTES_def MAX_ITEM_BYTES_def)

lemma orders_world_table:
  "map_of (tables orders_world) (get_complete_name dev_db ''orders'') = Some two_orders"
  by (simp add: orders_complete_name orders_world_def)

theorem export_data_to_csv_repeats_first_witness:
  "map_of (tables orders_world) (get_complete_name dev_db ''orders'') = Some two_orders
 \<and> 1 \<le> length (filter (\<lambda>i. key i = ''o1'') two_orders)
 \<and> ''out.csv'' \<in> set (writable orders_world)
 \<and> sum_list (map item_size (filter (\<lambda>i. key i = ''o1'') two_orders)) \<le> MAX_PAGE_BYTES
 \<and> (\<exists>w'. export_data_to_csv dev_db ''orders'' ''o1'' ''out.csv'' orders_world = (Inr (), w')
      \<and> map_of (files w') ''out.csv'' =
          Some [[''table'', ''key'', ''value'', ''datetime_yyyymmdd''],
                [''orders_dev'', ''o1'', ''150'', ''2023-01-02T00:00:00''],
                [''orders_dev'', ''o1'', ''150'', ''2023-01-02T00:00:00'']])"
proof -
  have some: "1 \<le> length (filter (\<lambda>i. key i = ''o1'') two_orders)"
    by (simp add: two_orders_def)
  have can_open: "''out.csv'' \<in> set (writable orders_world)"
    by (simp add: orders_world_def)
  have f: "filter (\<lambda>i. key i = ''o1'') two_orders = two_orders"
    by (simp add: two_orders_def)
  have s: "sort_key datetime two_orders = two_orders"
    by (simp add: two_orders_def)
  have fits: "sum_list (map item_size (filter (\<lambda>i. key i = ''o1'') two_orders)) \<le> MAX_PAGE_BYTES"
    by (simp add: two_orders_def item_size_def MAX_PAGE_BYTES_def)
  have n: "length two_orders = 2"
    by (simp add: two_orders_def)
  from export_data_to_csv_repeats_first [OF orders_world_table valid_two_orders some can_open]
  obtain w' P where r: "export_data_to_csv dev_db ''orders'' ''o1'' ''out.csv'' orders_world
                          = (Inr (), w')"
    and P: "sum_list (map item_size (filter (\<lambda>i. key i = ''o1'') two_orders)) \<le> MAX_PAGE_BYTES
              \<longrightarrow> P = length (filter (\<lambda>i. key i = ''o1'') two_orders)"
    and c: "map_of (files w') ''out.csv'' =
          Some ([''table'', ''key'', ''value'', ''datetime_yyyymmdd'']
                # replicate P
                    (let first = hd (rev (sort_key datetime (filter (\<lambda>i. key i = ''o1'') two_orders)))
                     in [get_complete_name dev_db ''orders'', key first, info_value first,
                         datetime first]))"
    by blast
  from P fits have "P = 2"
    by (simp add: f n)
  with c have "map_of (files w') ''out.csv'' =
          Some [[''table'', ''key'', ''value'', ''datetime_yyyymmdd''],
                [''orders_dev'', ''o1'', ''150'', ''2023-01-02T00:00:00''],
                [''orders_dev'', ''o1'', ''150'', ''2023-01-02T00:00:00'']]"
    by (simp add: f s orders_complete_name) (simp add: two_orders_def numeral_2_eq_2)
  with r orders_world_table some can_open fits show ?thesis
    by blast
qed

subsection \<open>A partition larger than a page\<close>

lemma length_big_value: "length big_value = 400000"
  by (simp add: big_value_def)

lemma item_size_big_item: "item_size (big_item d) = 400026 + length d"
  by (simp add: item_size_def big_item_def length_big_value)

lemma found_desc_big_orders:
  "found_desc ''o1'' None big_orders =
     [big_item ''2023-01-04T00:00:00'', big_item ''2023-01-03T00:00:00'',
      big_item ''2023-01-02T00:00:00'', big_item ''2023-01-01T00:00:00'']"
proof -
  have f: "filter (key_condition ''o1'' None) big_orders = big_orders"
    by (simp add: big_orders_def key_condition_None big_item_def)
  have d: "datetime (big_item d) = d" for d
    by (simp add: big_item_def)
  have "sort_key datetime big_orders = big_orders"
    by (simp add: big_orders_def d less_eq_char_def less_char_def)
  then show ?thesis
    by (simp add: found_desc_def f) (simp add: big_orders_def)
qed

lemma page_big_orders:
  "take_page MAX_PAGE_BYTES (found_desc ''o1'' None big_orders) =
     [big_item ''2023-01-04T00:00:00'', big_item ''2023-01-03T00:00:00'']"
  by (simp add: found_desc_big_orders item_size_big_item MAX_PAGE_BYTES_def)

lemma big_world_table:
  "map_of (tables big_world) (get_complete_name dev_db ''orders'') = Some big_orders"
  by (simp add: orders_complete_name big_world_def)

lemma valid_key_o1: "valid_partition_key ''o1''"
  by (simp add: valid_partition_key_def MAX_PARTITION_KEY_BYTES_def)

lemma valid_big_orders: "\<forall>i\<in>set big_orders. valid_item i"
  by (simp add: big_orders_def valid_item_def item_size_big_item MAX_ITEM_BYTES_def)
     (simp add: big_item_def valid_partition_key_def valid_sort_key_def
        MAX_PARTITION_KEY_BYTES_def MAX_SORT_KEY_BYTES_def)

text \<open>
  The claim as stated fails on a partition that does not fit in one page. Here
  four valid items are stored under the key, the page holds two of them, and
  the file gets two data rows.
\<close>

theorem export_data_to_csv_rows_counterexample:
  "map_of (tables big_world) (get_complete_name dev_db ''orders'') = Some big_orders
 \<and> length (filter (\<lambda>i. key i = ''o1'') big_orders) = 4
 \<and> fst (export_data_to_csv dev_db ''orders'' ''o1'' ''out.csv'' big_world) = Inr ()
 \<and> map_of (files (snd (export_data_to_csv dev_db ''orders'' ''o1'' ''out.csv'' big_world)))
      ''out.csv''
     = Some [[''table'', ''key'', ''value'', ''datetime_yyyymmdd''],
             [''orders_dev'', ''o1'', big_value, ''2023-01-04T00:00:00''],
             [''orders_dev'', ''o1'', big_value, ''2023-01-04T00:00:00'']]"
proof -
  have n: "length (filter (\<lambda>i. key i = ''o1'') big_orders) = 4"
    by (simp add: big_orders_def big_item_def)
  have can_open: "''out.csv'' \<in> set (writable big_world)"
    by (simp add: big_world_def)
  have "export_data_to_csv dev_db ''orders'' ''o1'' ''out.csv'' big_world =
      (Inr (),
       log_info (''KEYSTORE - CSV File: '' @ ''out.csv'' @ '' has been exported.'')
         (big_world\<lparr>files := AList.update ''out.csv''
               ([''table'', ''key'', ''value'', ''datetime_yyyymmdd'']
                # replicate (Suc (length [big_item ''2023-01-03T00:00:00'']))
                    [get_complete_name dev_db ''orders'', key (big_item ''2023-01-04T00:00:00''),
                     info_value (big_item ''2023-01-04T00:00:00''),
                     datetime (big_item ''2023-01-04T00:00:00'')])
               (files big_world)\<rparr>))"
    using export_data_to_csv_page [OF big_world_table valid_key_o1 page_big_orders, of "''out.csv''"]
      can_open
    by simp
  then show ?thesis
    using big_world_table n
    by (simp add: log_info_def update_conv' orders_complete_name big_item_def)
qed

section \<open>Parsing and printing dates\<close>

lemma in_range_nat:
  "in_range lo hi c \<longleftrightarrow> (of_char lo :: nat) \<le> of_char c \<and> (of_char c :: nat) \<le> of_char hi"
  by (simp add: in_range_def less_eq_char_def)

lemma is_digit_nat: "is_digit c \<longleftrightarrow> 48 \<le> (of_char c :: nat) \<and> (of_char c :: nat) \<le> 57"
  by (simp add: is_digit_def in_range_nat)

lemma digit_val_less: "is_digit c \<Longrightarrow> digit_val c < 10"
  by (auto simp: is_digit_nat digit_val_def)

lemma char_of_digit_val: "is_digit c \<Longrightarrow> char_of (48 + digit_val c) = c"
proof -
  assume "is_digit c"
  then have "48 + digit_val c = (of_char c :: nat)"
    by (simp add: is_digit_nat digit_val_def)
  then show ?thesis
    by simp
qed

lemma digit_char_small: "n < 10 \<Longrightarrow> digit_char n = char_of (48 + n)"
  by (simp add: digit_char_def)

lemma digit_char_digit_val: "is_digit c \<Longrightarrow> digit_char (digit_val c) = c"
  by (simp add: digit_char_small digit_val_less char_of_digit_val)

lemma digit_char_mod: "digit_char n = digit_char (n mod 10)"
  by (simp add: digit_char_def)

lemma fmt02d_digits:
  assumes "is_digit a" and "is_digit b"
  shows "fmt02d (10 * digit_val a + digit_val b) = [a, b]"
proof -
  have "(10 * digit_val a + digit_val b) div 10 = digit_val a"
    and "(10 * digit_val a + digit_val b) mod 10 = digit_val b"
    using digit_val_less [OF assms(2)] by simp_all
  then show ?thesis
    using assms digit_char_mod [of "10 * digit_val a + digit_val b"]
    by (simp add: fmt02d_def digit_char_digit_val)
qed

lemma div_mod_ten: "d < 10 \<Longrightarrow> (10 * m + d) div 10 = m \<and> (10 * m + d) mod 10 = (d::nat)"
  by simp

lemma fmt04d_digits:
  assumes "is_digit a" and "is_digit b" and "is_digit c" and "is_digit d"
  shows "fmt04d (1000 * digit_val a + 100 * digit_val b + 10 * digit_val c + digit_val d)
           = [a, b, c, d]"
proof -
  let ?n = "1000 * digit_val a + 100 * digit_val b + 10 * digit_val c + digit_val d"
  let ?n1 = "100 * digit_val a + 10 * digit_val b + digit_val c"
  let ?n2 = "10 * digit_val a + digit_val b"
  have lt: "digit_val a < 10" "digit_val b < 10" "digit_val c < 10" "digit_val d < 10"
    using assms by (simp_all add: digit_val_less)
  have n: "?n = 10 * ?n1 + digit_val d" and n1: "?n1 = 10 * ?n2 + digit_val c"
    by simp_all
  have d0: "?n mod 10 = digit_val d" and q1: "?n div 10 = ?n1"
    using div_mod_ten [OF lt(4), of ?n1] by (simp_all only: n)
  have d1: "?n1 mod 10 = digit_val c" and q2: "?n1 div 10 = ?n2"
    using div_mod_ten [OF lt(3), of ?n2] by (simp_all only: n1)
  have d2: "?n2 mod 10 = digit_val b" and q3: "?n2 div 10 = digit_val a"
    using div_mod_ten [OF lt(2), of "digit_val a"] by simp_all
  have h: "?n div 100 = ?n2"
    using q1 q2 div_mult2_eq [of ?n 10 10] by simp
  have t: "?n div 1000 = digit_val a"
    using h q3 div_mult2_eq [of ?n 100 10] by simp
  have "digit_char (?n div 1000) = a"
    using t assms(1) by (simp add: digit_char_digit_val)
  moreover have "digit_char (?n div 100) = b"
    using h d2 assms(2) digit_char_mod [of ?n2] by (simp add: digit_char_digit_val)
  moreover have "digit_char (?n div 10) = c"
    using q1 d1 assms(3) digit_char_mod [of ?n1] by (simp add: digit_char_digit_val)
  moreover have "digit_char ?n = d"
    using d0 assms(4) digit_char_mod [of ?n] by (simp add: digit_char_digit_val)
  ultimately show ?thesis
    by (simp add: fmt04d_def)
qed

lemma fmt02d_zero: "fmt02d 0 = ''00''"
  by code_simp

lemma directive_m_two_digits:
  assumes "is_digit e" and "is_digit f"
    and "1 \<le> 10 * digit_val e + digit_val f" and "10 * digit_val e + digit_val f \<le> 12"
  shows "\<exists>ms. directive_m (e # f # r) = (10 * digit_val e + digit_val f, r) # ms"
  using assms
  by (auto simp: directive_m_def two_chars_def one_char_def in_range_nat is_digit_nat digit_val_def)

lemma directive_d_two_digits:
  assumes "is_digit g" and "is_digit h"
    and "1 \<le> 10 * digit_val g + digit_val h" and "10 * digit_val g + digit_val h \<le> 31"
  shows "\<exists>ds. directive_d (g # h # r) = (10 * digit_val g + digit_val h, r) # ds"
  using assms
  by (auto simp: directive_d_def two_chars_def one_char_def space_char_def in_range_nat
      is_digit_nat digit_val_def)

lemma days_in_month_le: "days_in_month y m \<le> 31"
  by (simp add: days_in_month_def)

lemma eight_chars:
  "length s = 8 \<Longrightarrow> \<exists>a b c d e f g h. s = [a, b, c, d, e, f, g, h]"
  by (auto simp: eval_nat_numeral length_Suc_conv)

lemma strptime_Ymd_yyyymmdd:
  assumes "is_yyyymmdd s"
  shows "strptime_Ymd s =
           Inr \<lparr> year = number (take 4 s), month = number (take 2 (drop 4 s)),
                 day = number (drop 6 s), hour = 0, minute = 0, second = 0 \<rparr>"
    and "isoformat \<lparr> year = number (take 4 s), month = number (take 2 (drop 4 s)),
                 day = number (drop 6 s), hour = 0, minute = 0, second = 0 \<rparr>
           = take 4 s @ ''-'' @ take 2 (drop 4 s) @ ''-'' @ drop 6 s @ ''T00:00:00''"
proof -
  from assms obtain a b c d e f g h where s: "s = [a, b, c, d, e, f, g, h]"
    using eight_chars [of s] by (auto simp: is_yyyymmdd_def)
  let ?y = "1000 * digit_val a + 100 * digit_val b + 10 * digit_val c + digit_val d"
  let ?m = "10 * digit_val e + digit_val f"
  let ?d = "10 * digit_val g + digit_val h"
  have num: "number (take 4 s) = ?y" "number (take 2 (drop 4 s)) = ?m" "number (drop 6 s) = ?d"
    by (simp_all add: s number_def)
  have dig: "is_digit a" "is_digit b" "is_digit c" "is_digit d"
    "is_digit e" "is_digit f" "is_digit g" "is_digit h"
    using assms by (simp_all add: is_yyyymmdd_def s)
  have rng: "1 \<le> ?y" "1 \<le> ?m" "?m \<le> 12" "1 \<le> ?d" "?d \<le> days_in_month ?y ?m"
    using assms unfolding is_yyyymmdd_def num by simp_all
  have d31: "?d \<le> 31"
    using rng(5) days_in_month_le [of ?y ?m] by simp
  obtain ms where ms: "directive_m [e, f, g, h] = (?m, [g, h]) # ms"
    using directive_m_two_digits [OF dig(5) dig(6) rng(2) rng(3), of "[g, h]"] by blast
  obtain ds where ds: "directive_d [g, h] = (?d, []) # ds"
    using directive_d_two_digits [OF dig(7) dig(8) rng(4) d31, of "[]"] by blast
  have "\<exists>more. regex_Ymd s = (?y, ?m, ?d, []) # more"
    by (simp add: regex_Ymd_def s dig ms ds)
  then show "strptime_Ymd s =
           Inr \<lparr> year = number (take 4 s), month = number (take 2 (drop 4 s)),
                 day = number (drop 6 s), hour = 0, minute = 0, second = 0 \<rparr>"
    using rng by (auto simp: strptime_Ymd_def num)
  show "isoformat \<lparr> year = number (take 4 s), month = number (take 2 (drop 4 s)),
                 day = number (drop 6 s), hour = 0, minute = 0, second = 0 \<rparr>
           = take 4 s @ ''-'' @ take 2 (drop 4 s) @ ''-'' @ drop 6 s @ ''T00:00:00''"
    unfolding num
    by (simp add: isoformat_def fmt04d_digits fmt02d_digits fmt02d_zero dig s)
qed

lemma length_isoformat: "length (isoformat d) = 19"
  by (simp add: isoformat_def fmt04d_def fmt02d_def)

lemma valid_sort_key_isoformat: "valid_sort_key (isoformat d)"
  by (simp add: valid_sort_key_def length_isoformat MAX_SORT_KEY_BYTES_def)

lemma is_yyyymmdd_20230102: "is_yyyymmdd ''20230102''"
  by (simp add: is_yyyymmdd_def is_digit_nat number_def digit_val_def days_in_month_def)

lemma is_yyyymmdd_20230101: "is_yyyymmdd ''20230101''"
  by (simp add: is_yyyymmdd_def is_digit_nat number_def digit_val_def days_in_month_def)

section \<open>Range queries\<close>

lemma get_items_greater_than_date_missing:
  "map_of (tables w) (get_complete_name self t) = None \<Longrightarrow> strptime_Ymd D = Inr d \<Longrightarrow>
   get_items_greater_than_date self t k D w = (Inl ResourceNotFoundException, w)"
  by (simp add: get_items_greater_than_date_def truthy_def table_query_desc_None)

lemma get_items_greater_than_date_invalid:
  "map_of (tables w) (get_complete_name self t) = Some items \<Longrightarrow> strptime_Ymd D = Inr d \<Longrightarrow>
   \<not> valid_partition_key k \<Longrightarrow>
   get_items_greater_than_date self t k D w = (Inl ValidationException, w)"
  by (simp add: get_items_greater_than_date_def truthy_def table_query_desc_invalid
      valid_key_condition_def)

lemma get_items_greater_than_date_page:
  assumes "map_of (tables w) (get_complete_name self t) = Some items"
    and "strptime_Ymd D = Inr d" and "valid_partition_key k"
  shows "get_items_greater_than_date self t k D w =
           (if take_page MAX_PAGE_BYTES (found_desc k (Some (isoformat d)) items) = []
            then (Inr None, log_info ''KEYSTORE - No values were found.'' w)
            else (Inr (Some (take_page MAX_PAGE_BYTES (found_desc k (Some (isoformat d)) items))),
                  w))"
proof -
  have "valid_key_condition k (Some (isoformat d))"
    using assms(3) by (simp add: valid_key_condition_def valid_sort_key_isoformat)
  then show ?thesis
    using assms(1,2)
    by (simp add: get_items_greater_than_date_def truthy_def table_query_desc_Some)
qed

text \<open>
  Claim C3, as the code has it. For a date \<open>D\<close> written \<^verbatim>\<open>YYYYMMDD\<close>, an existing
  backing table and a key the service accepts, \<^verbatim>\<open>get_items_greater_than_date\<close>
  parses \<open>D\<close> to a \<^verbatim>\<open>datetime\<close> with zero time of day whose ISO form is
  \<^verbatim>\<open>YYYY-MM-DDT00:00:00\<close> (no zone), and returns the one page the query answers
  with: the longest run, within one megabyte, of the stored items of the key
  whose \<^verbatim>\<open>datetime\<close> is at or after that string in lexical order, taken in
  descending order of \<^verbatim>\<open>datetime\<close>. When those items together fit in a page the
  result is exactly all of them. It returns \<^verbatim>\<open>None\<close> when the page is empty, and
  it leaves the tables as they are.
\<close>

theorem get_items_greater_than_date_exact:
  assumes date: "is_yyyymmdd D"
    and tab: "map_of (tables w) (get_complete_name self t) = Some items"
    and k: "valid_partition_key k"
  defines "bound \<equiv> take 4 D @ ''-'' @ take 2 (drop 4 D) @ ''-'' @ drop 6 D @ ''T00:00:00''"
  shows "(\<exists>d. strptime_Ymd D = Inr d \<and> isoformat d = bound
            \<and> hour d = 0 \<and> minute d = 0 \<and> second d = 0)
       \<and> (\<exists>r. fst (get_items_greater_than_date self t k D w)
                 = Inr (if r = [] then None else Some r)
              \<and> r = take_page MAX_PAGE_BYTES
                      (rev (sort_key datetime
                         (filter (\<lambda>i. key i = k \<and> bound \<le> datetime i) items)))
              \<and> (sum_list (map item_size
                     (filter (\<lambda>i. key i = k \<and> bound \<le> datetime i) items)) \<le> MAX_PAGE_BYTES
                   \<longrightarrow> mset r = mset (filter (\<lambda>i. key i = k \<and> bound \<le> datetime i) items))
              \<and> (\<forall>i\<in>set r. i \<in> set items \<and> key i = k \<and> bound \<le> datetime i)
              \<and> sorted (rev (map datetime r)))
       \<and> tables (snd (get_items_greater_than_date self t k D w)) = tables w"
proof -
  let ?d = "\<lparr> year = number (take 4 D), month = number (take 2 (drop 4 D)),
             day = number (drop 6 D), hour = 0, minute = 0, second = 0 \<rparr>"
  have parse: "strptime_Ymd D = Inr ?d" and iso: "isoformat ?d = bound"
    using strptime_Ymd_yyyymmdd [OF date] by (simp_all add: bound_def)
  let ?match = "filter (\<lambda>i. key i = k \<and> bound \<le> datetime i) items"
  let ?found = "found_desc k (Some bound) items"
  let ?r = "take_page MAX_PAGE_BYTES (rev (sort_key datetime ?match))"
  have cond: "key_condition k (Some bound) = (\<lambda>i. key i = k \<and> bound \<le> datetime i)"
    by (simp add: key_condition_def fun_eq_iff)
  have found_eq: "?found = rev (sort_key datetime ?match)"
    by (simp add: found_desc_def cond)
  have res: "get_items_greater_than_date self t k D w =
               (if ?r = [] then (Inr None, log_info ''KEYSTORE - No values were found.'' w)
                else (Inr (Some ?r), w))"
    using get_items_greater_than_date_page [OF tab parse k] by (simp only: iso found_eq)
  have a: "fst (get_items_greater_than_date self t k D w) = Inr (if ?r = [] then None else Some ?r)"
    by (simp add: res)
  have b: "sum_list (map item_size ?match) \<le> MAX_PAGE_BYTES \<longrightarrow> mset ?r = mset ?match"
  proof
    assume fits: "sum_list (map item_size ?match) \<le> MAX_PAGE_BYTES"
    have "sum_list (map item_size ?found) = sum_list (map item_size ?match)"
      using sum_size_found_desc [of k "Some bound" items] by (simp only: cond)
    with fits have "take_page MAX_PAGE_BYTES ?found = ?found"
      by (simp only: take_page_fits)
    then have "?r = rev (sort_key datetime ?match)"
      by (simp only: found_eq)
    then show "mset ?r = mset ?match"
      by simp
  qed
  have c: "\<forall>i\<in>set ?r. i \<in> set items \<and> key i = k \<and> bound \<le> datetime i"
  proof
    fix i
    assume "i \<in> set ?r"
    then have "i \<in> set (rev (sort_key datetime ?match))"
      using set_take_page [of MAX_PAGE_BYTES "rev (sort_key datetime ?match)"] by blast
    then show "i \<in> set items \<and> key i = k \<and> bound \<le> datetime i"
      by simp
  qed
  have d: "sorted (rev (map datetime ?r))"
    using sorted_take_page [OF sorted_found_desc, of MAX_PAGE_BYTES k "Some bound" items]
    by (simp only: found_eq)
  have e: "tables (snd (get_items_greater_than_date self t k D w)) = tables w"
    by (simp add: res log_info_def)
  have first: "\<exists>d. strptime_Ymd D = Inr d \<and> isoformat d = bound
            \<and> hour d = 0 \<and> minute d = 0 \<and> second d = 0"
    using parse iso by (intro exI [of _ ?d]) simp
  have second: "\<exists>r. fst (get_items_greater_than_date self t k D w)
                 = Inr (if r = [] then None else Some r)
              \<and> r = ?r
              \<and> (sum_list (map item_size ?match) \<le> MAX_PAGE_BYTES \<longrightarrow> mset r = mset ?match)
              \<and> (\<forall>i\<in>set r. i \<in> set items \<and> key i = k \<and> bound \<le> datetime i)
              \<and> sorted (rev (map datetime r))"
    using a b c d by (intro exI [of _ ?r] conjI refl)
  show ?thesis
    by (rule conjI [OF first conjI [OF second e]])
qed

theorem get_items_greater_than_date_exact_witness:
  "is_yyyymmdd ''20230102''
 \<and> map_of (tables orders_world) (get_complete_name dev_db ''orders'') = Some two_orders
 \<and> valid_partition_key ''o1''
 \<and> strptime_Ymd ''20230102''
      = Inr \<lparr> year = 2023, month = 1, day = 2, hour = 0, minute = 0, second = 0 \<rparr>
 \<and> isoformat \<lparr> year = 2023, month = 1, day = 2, hour = 0, minute = 0, second = 0 \<rparr>
      = ''2023-01-02T00:00:00''
 \<and> fst (get_items_greater_than_date dev_db ''orders'' ''o1'' ''20230102'' orders_world)
      = Inr (Some [\<lparr> key = ''o1'', datetime = ''2023-01-02T00:00:00'', info_value = ''150'' \<rparr>])"
proof -
  have f: "filter (\<lambda>i. key i = ''o1'' \<and> ''2023-01-02T00:00:00'' \<le> datetime i) two_orders
            = [\<lparr> key = ''o1'', datetime = ''2023-01-02T00:00:00'', info_value = ''150'' \<rparr>]"
    by (simp add: two_orders_def less_eq_char_def)
  have fits: "sum_list (map item_size
      [\<lparr> key = ''o1'', datetime = ''2023-01-02T00:00:00'', info_value = ''150'' \<rparr>])
        \<le> MAX_PAGE_BYTES"
    by (simp add: item_size_def MAX_PAGE_BYTES_def)
  from get_items_greater_than_date_exact [OF is_yyyymmdd_20230102 orders_world_table valid_key_o1]
  obtain d r where d: "strptime_Ymd ''20230102'' = Inr d"
      "isoformat d = ''2023-01-02T00:00:00''"
    and r: "fst (get_items_greater_than_date dev_db ''orders'' ''o1'' ''20230102'' orders_world)
              = Inr (if r = [] then None else Some r)"
      "sum_list (map item_size
          [\<lparr> key = ''o1'', datetime = ''2023-01-02T00:00:00'', info_value = ''150'' \<rparr>])
            \<le> MAX_PAGE_BYTES
       \<longrightarrow> mset r = mset [\<lparr> key = ''o1'', datetime = ''2023-01-02T00:00:00'',
                              info_value = ''150'' \<rparr>]"
    by (auto simp: f)
  have r1: "r = [\<lparr> key = ''o1'', datetime = ''2023-01-02T00:00:00'', info_value = ''150'' \<rparr>]"
    using r(2) fits by simp
  have d1: "d = \<lparr> year = 2023, month = 1, day = 2, hour = 0, minute = 0, second = 0 \<rparr>"
    using d(1) strptime_Ymd_yyyymmdd(1) [OF is_yyyymmdd_20230102]
    by (simp add: number_def digit_val_def)
  show ?thesis
    using is_yyyymmdd_20230102 orders_world_table valid_key_o1 d r(1) by (simp add: r1 d1)
qed

text \<open>
  The claim as stated fails on a partition that does not fit in one page: all
  four stored items are at or after the first of January, and the call returns
  the two latest.
\<close>

theorem get_items_greater_than_date_page_counterexample:
  "is_yyyymmdd ''20230101''
 \<and> map_of (tables big_world) (get_complete_name dev_db ''orders'') = Some big_orders
 \<and> length (filter (\<lambda>i. key i = ''o1'' \<and> ''2023-01-01T00:00:00'' \<le> datetime i) big_orders) = 4
 \<and> fst (get_items_greater_than_date dev_db ''orders'' ''o1'' ''20230101'' big_world)
      = Inr (Some [big_item ''2023-01-04T00:00:00'', big_item ''2023-01-03T00:00:00''])"
proof -
  let ?d = "\<lparr> year = 2023, month = 1, day = 1, hour = 0, minute = 0, second = 0 \<rparr>"
  have parse: "strptime_Ymd ''20230101'' = Inr ?d"
    using strptime_Ymd_yyyymmdd(1) [OF is_yyyymmdd_20230101]
    by (simp add: number_def digit_val_def)
  have iso: "isoformat ?d = ''2023-01-01T00:00:00''"
    using strptime_Ymd_yyyymmdd(2) [OF is_yyyymmdd_20230101]
    by (simp add: number_def digit_val_def)
  have f: "filter (\<lambda>i. key i = ''o1'' \<and> ''2023-01-01T00:00:00'' \<le> datetime i) big_orders
             = big_orders"
    by (simp add: big_orders_def big_item_def less_eq_char_def less_char_def)
  have "found_desc ''o1'' (Some ''2023-01-01T00:00:00'') big_orders
          = found_desc ''o1'' None big_orders"
    using f by (simp add: found_desc_def key_condition_def big_orders_def big_item_def)
  then have page: "take_page MAX_PAGE_BYTES
      (found_desc ''o1'' (Some (isoformat ?d)) big_orders)
        = [big_item ''2023-01-04T00:00:00'', big_item ''2023-01-03T00:00:00'']"
    by (simp only: iso page_big_orders)
  have n: "length (filter (\<lambda>i. key i = ''o1'' \<and> ''2023-01-01T00:00:00'' \<le> datetime i)
             big_orders) = 4"
    by (simp only: f) (simp add: big_orders_def)
  show ?thesis
    using get_items_greater_than_date_page [OF big_world_table parse valid_key_o1]
      is_yyyymmdd_20230101 big_world_table n
    by (simp only: page) simp
qed

section \<open>Writing an item and reading the latest\<close>

lemma table_put_item_Some:
  "map_of (tables w) (name t) = Some items \<Longrightarrow> valid_item it \<Longrightarrow>
   table_put_item t it w =
     (Inr PutItemOutput,
      w\<lparr>tables := AList.update (name t)
            (it # filter (\<lambda>j. \<not> same_primary_key j it) items) (tables w)\<rparr>)"
  by (simp add: table_put_item_def)

lemma table_put_item_invalid:
  "map_of (tables w) (name t) = Some items \<Longrightarrow> \<not> valid_item it \<Longrightarrow>
   table_put_item t it w = (Inl ValidationException, w)"
  by (simp add: table_put_item_def)

lemma table_put_item_None:
  "map_of (tables w) (name t) = None \<Longrightarrow>
   table_put_item t it w = (Inl ResourceNotFoundException, w)"
  by (simp add: table_put_item_def)

lemma get_latest_item_value_missing:
  "map_of (tables w) (get_complete_name self t) = None \<Longrightarrow>
   get_latest_item_value self t k w = (Inl ResourceNotFoundException, w)"
  by (simp add: get_latest_item_value_def truthy_def table_query_desc_None)

lemma get_latest_item_value_invalid:
  "map_of (tables w) (get_complete_name self t) = Some items \<Longrightarrow> \<not> valid_partition_key k \<Longrightarrow>
   get_latest_item_value self t k w = (Inl ValidationException, w)"
  by (simp add: get_latest_item_value_def truthy_def table_query_desc_invalid
      valid_key_condition_def)

lemma get_latest_item_value_page:
  assumes "map_of (tables w) (get_complete_name self t) = Some items"
    and "valid_partition_key k"
  shows "get_latest_item_value self t k w =
           (case take_page MAX_PAGE_BYTES (found_desc k None items) of
              [] \<Rightarrow> (Inr None, log_info ''KEYSTORE - No values found with provided key'' w)
            | it # _ \<Rightarrow> (Inr (Some (info_value it)), w))"
proof -
  have "valid_key_condition k None"
    using assms(2) by (simp add: valid_key_condition_def)
  then show ?thesis
    using assms(1)
    by (simp add: get_latest_item_value_def truthy_def table_query_desc_Some
        split: list.splits)
qed

lemma get_latest_item_value_Some:
  assumes tab: "map_of (tables w) (get_complete_name self t) = Some items"
    and k: "valid_partition_key k"
    and found: "found_desc k None items = it # rest"
    and fits: "item_size it \<le> MAX_PAGE_BYTES"
  shows "get_latest_item_value self t k w = (Inr (Some (info_value it)), w)"
proof -
  obtain more where "take_page MAX_PAGE_BYTES (found_desc k None items) = it # more"
    using take_page_head [OF fits, of rest] found by auto
  then show ?thesis
    using get_latest_item_value_page [OF tab k] by simp
qed

text \<open>
  Claim C2, as the code has it. Let the backing table of \<open>t\<close> exist. If lowering
  the case of \<open>t\<close> leaves it unchanged, the item to write is one the service
  accepts (key and timestamp not empty and within the key sizes, the item within
  the item size), and no item stored under the key has a \<^verbatim>\<open>datetime\<close> after the
  timestamp of the write in lexical order, then \<^verbatim>\<open>put_item_into_table\<close> followed
  by \<^verbatim>\<open>get_latest_item_value\<close> returns the value just written. And whenever
  the table, its items within the service's limits, holds an item under the
  key, \<^verbatim>\<open>get_latest_item_value\<close> returns the value of a stored item of that key
  whose \<^verbatim>\<open>datetime\<close> is the greatest.
\<close>

theorem put_then_get_latest:
  assumes tab: "map_of (tables w) (get_complete_name self t) = Some items"
  shows "(lower t = t
          \<and> valid_item \<lparr> key = k, datetime = datetime_now, info_value = v \<rparr>
          \<and> (\<forall>i\<in>set items. key i = k \<longrightarrow> datetime i \<le> datetime_now)
          \<longrightarrow> (\<exists>w1. put_item_into_table self t k v datetime_now w = (Inr (Some PutItemOutput), w1)
                 \<and> get_latest_item_value self t k w1 = (Inr (Some v), w1)))
       \<and> ((\<forall>i\<in>set items. valid_item i) \<and> (\<exists>i\<in>set items. key i = k)
          \<longrightarrow> (\<exists>i\<in>set items. key i = k
                 \<and> (\<forall>j\<in>set items. key j = k \<longrightarrow> datetime j \<le> datetime i)
                 \<and> get_latest_item_value self t k w = (Inr (Some (info_value i)), w)))"
proof (intro conjI impI)
  assume a: "(\<forall>i\<in>set items. valid_item i) \<and> (\<exists>i\<in>set items. key i = k)"
  then have "set (found_desc k None items) \<noteq> {}"
    by (auto simp: set_found_desc key_condition_None)
  then obtain it rest where found: "found_desc k None items = it # rest"
    by (cases "found_desc k None items") auto
  have "it \<in> set (found_desc k None items)"
    by (simp add: found)
  then have it: "it \<in> set items" "key it = k"
    by (simp_all add: set_found_desc key_condition_None)
  with a have vit: "valid_item it"
    by blast
  then have k: "valid_partition_key k"
    using it(2) by (simp add: valid_item_def)
  have greatest: "\<forall>j\<in>set items. key j = k \<longrightarrow> datetime j \<le> datetime it"
    using found_desc_head_greatest [OF found] by (simp add: key_condition_None)
  have "get_latest_item_value self t k w = (Inr (Some (info_value it)), w)"
    by (rule get_latest_item_value_Some [OF tab k found valid_item_fits_page [OF vit]])
  with it greatest show "\<exists>i\<in>set items. key i = k
      \<and> (\<forall>j\<in>set items. key j = k \<longrightarrow> datetime j \<le> datetime i)
      \<and> get_latest_item_value self t k w = (Inr (Some (info_value i)), w)"
    by blast
next
  let ?new = "\<lparr> key = k, datetime = datetime_now, info_value = v \<rparr>"
  assume a: "lower t = t \<and> valid_item ?new
             \<and> (\<forall>i\<in>set items. key i = k \<longrightarrow> datetime i \<le> datetime_now)"
  then have low: "lower t = t" and vnew: "valid_item ?new"
    and older: "\<forall>i\<in>set items. key i = k \<longrightarrow> datetime i \<le> datetime_now"
    by simp_all
  have k: "valid_partition_key k"
    using vnew by (simp add: valid_item_def)
  let ?items' = "?new # filter (\<lambda>j. \<not> same_primary_key j ?new) items"
  let ?w1 = "log_info ''KEYSTORE - A new item has been added to the table.''
               (w\<lparr>tables := AList.update (get_complete_name self t) ?items' (tables w)\<rparr>)"
  have put: "put_item_into_table self t k v datetime_now w = (Inr (Some PutItemOutput), ?w1)"
    using low tab vnew by (simp add: put_item_into_table_def truthy_def table_put_item_Some)
  have tab1: "map_of (tables ?w1) (get_complete_name self t) = Some ?items'"
    by (simp add: log_info_def update_conv')
  have "?new \<in> set (found_desc k None ?items')"
    by (simp add: set_found_desc key_condition_None)
  then obtain it rest where found: "found_desc k None ?items' = it # rest"
    by (cases "found_desc k None ?items'") auto
  have "it \<in> set (found_desc k None ?items')"
    by (simp add: found)
  then have it: "it \<in> set ?items'" "key it = k"
    by (simp_all add: set_found_desc key_condition_None)
  have ge: "datetime_now \<le> datetime it"
    using found_desc_head_greatest [OF found, of ?new] by (simp add: key_condition_None)
  have same: "it = ?new"
  proof (rule ccontr)
    assume ne: "it \<noteq> ?new"
    with it have mem: "it \<in> set items" and pk: "\<not> same_primary_key it ?new"
      by auto
    from older mem it(2) have "datetime it \<le> datetime_now"
      by blast
    with ge have "datetime it = datetime_now"
      by simp
    with it(2) pk show False
      by (simp add: same_primary_key_def)
  qed
  have "item_size it \<le> MAX_PAGE_BYTES"
    using valid_item_fits_page [OF vnew] by (simp only: same)
  then have "get_latest_item_value self t k ?w1 = (Inr (Some v), ?w1)"
    using get_latest_item_value_Some [OF tab1 k found] same by simp
  with put show "\<exists>w1. put_item_into_table self t k v datetime_now w = (Inr (Some PutItemOutput), w1)
      \<and> get_latest_item_value self t k w1 = (Inr (Some v), w1)"
    by blast
qed

lemma lower_orders: "lower ''orders'' = ''orders''"
  by (simp add: lower_def lower_char_def is_upper_def less_eq_char_def)

theorem put_then_get_latest_witness:
  "map_of (tables orders_world) (get_complete_name dev_db ''orders'') = Some two_orders
 \<and> lower ''orders'' = ''orders''
 \<and> valid_item \<lparr> key = ''o1'', datetime = ''2023-01-03T09:15:00.250000-06:00'',
                 info_value = ''175'' \<rparr>
 \<and> (\<exists>w1. put_item_into_table dev_db ''orders'' ''o1'' ''175''
             ''2023-01-03T09:15:00.250000-06:00'' orders_world = (Inr (Some PutItemOutput), w1)
        \<and> get_latest_item_value dev_db ''orders'' ''o1'' w1 = (Inr (Some ''175''), w1))
 \<and> get_latest_item_value dev_db ''orders'' ''o1'' orders_world
      = (Inr (Some ''150''), orders_world)"
proof -
  note inst = put_then_get_latest [OF orders_world_table, of "''o1''"
      "''2023-01-03T09:15:00.250000-06:00''" "''175''"]
  have vnew: "valid_item \<lparr> key = ''o1'', datetime = ''2023-01-03T09:15:00.250000-06:00'',
                 info_value = ''175'' \<rparr>"
    by (simp add: valid_item_def valid_partition_key_def valid_sort_key_def item_size_def
        MAX_PARTITION_KEY_BYTES_def MAX_SORT_KEY_BYTES_def MAX_ITEM_BYTES_def)
  have older: "\<forall>i\<in>set two_orders. key i = ''o1''
                 \<longrightarrow> datetime i \<le> ''2023-01-03T09:15:00.250000-06:00''"
    by (simp add: two_orders_def less_eq_char_def less_char_def)
  have some: "\<exists>i\<in>set two_orders. key i = ''o1''"
    by (simp add: two_orders_def)
  from inst lower_orders vnew older
  have first: "\<exists>w1. put_item_into_table dev_db ''orders'' ''o1'' ''175''
             ''2023-01-03T09:15:00.250000-06:00'' orders_world = (Inr (Some PutItemOutput), w1)
        \<and> get_latest_item_value dev_db ''orders'' ''o1'' w1 = (Inr (Some ''175''), w1)"
    by blast
  from inst valid_two_orders some obtain i where i: "i \<in> set two_orders"
      "\<forall>j\<in>set two_orders. key j = ''o1'' \<longrightarrow> datetime j \<le> datetime i"
      "get_latest_item_value dev_db ''orders'' ''o1'' orders_world
         = (Inr (Some (info_value i)), orders_world)"
    by blast
  have "info_value i = ''150''"
    using i(1) i(2) by (auto simp: two_orders_def less_eq_char_def less_char_def)
  with i(3) orders_world_table lower_orders vnew first show ?thesis
    by simp
qed

text \<open>
  The claim as stated fails when the table already holds an item of the key with
  a later \<^verbatim>\<open>datetime\<close>, here one imported for the next day: the write succeeds
  and the read still returns the older value.
\<close>

theorem put_then_get_latest_counterexample:
  "fst (put_item_into_table dev_db ''orders'' ''o1'' ''175'' ''2023-01-01T15:30:00-06:00''
          orders_world) = Inr (Some PutItemOutput)
 \<and> fst (get_latest_item_value dev_db ''orders'' ''o1''
          (snd (put_item_into_table dev_db ''orders'' ''o1'' ''175''
                  ''2023-01-01T15:30:00-06:00'' orders_world))) = Inr (Some ''150'')"
proof -
  let ?new = "\<lparr> key = ''o1'', datetime = ''2023-01-01T15:30:00-06:00'', info_value = ''175'' \<rparr>"
  let ?items' = "?new # two_orders"
  let ?w1 = "log_info ''KEYSTORE - A new item has been added to the table.''
               (orders_world\<lparr>tables := AList.update (get_complete_name dev_db ''orders'')
                    ?items' (tables orders_world)\<rparr>)"
  have vnew: "valid_item ?new"
    by (simp add: valid_item_def valid_partition_key_def valid_sort_key_def item_size_def
        MAX_PARTITION_KEY_BYTES_def MAX_SORT_KEY_BYTES_def MAX_ITEM_BYTES_def)
  have keep: "filter (\<lambda>j. \<not> same_primary_key j ?new) two_orders = two_orders"
    by (simp add: two_orders_def same_primary_key_def)
  have put: "put_item_into_table dev_db ''orders'' ''o1'' ''175'' ''2023-01-01T15:30:00-06:00''
               orders_world = (Inr (Some PutItemOutput), ?w1)"
    using orders_world_table vnew
    by (simp add: put_item_into_table_def truthy_def lower_orders table_put_item_Some keep)
  have tab1: "map_of (tables ?w1) (get_complete_name dev_db ''orders'') = Some ?items'"
    by (simp add: log_info_def update_conv')
  have found: "found_desc ''o1'' None ?items' =
      [\<lparr> key = ''o1'', datetime = ''2023-01-02T00:00:00'', info_value = ''150'' \<rparr>,
       ?new,
       \<lparr> key = ''o1'', datetime = ''2023-01-01T00:00:00'', info_value = ''100'' \<rparr>]"
    by (simp add: found_desc_def key_condition_None two_orders_def less_eq_char_def
        less_char_def)
  have "get_latest_item_value dev_db ''orders'' ''o1'' ?w1 = (Inr (Some ''150''), ?w1)"
    using get_latest_item_value_page [OF tab1 valid_key_o1]
    by (simp add: found item_size_def MAX_PAGE_BYTES_def)
  with put show ?thesis
    by simp
qed

section \<open>Operations on a table that does not exist\<close>

lemma put_item_into_table_missing:
  "map_of (tables w) (get_complete_name self (lower t)) = None \<Longrightarrow>
   put_item_into_table self t k v datetime_now w = (Inl ResourceNotFoundException, w)"
  by (simp add: put_item_into_table_def truthy_def table_put_item_None)

lemma export_data_to_csv_missing:
  "map_of (tables w) (get_complete_name self t) = None \<Longrightarrow>
   export_data_to_csv self t k csv_file_name w = (Inl ResourceNotFoundException, w)"
  by (simp add: export_data_to_csv_def truthy_def table_query_desc_None)

lemma put_item_into_table_log:
  "log (snd (put_item_into_table self t k v datetime_now w)) = log w
 \<or> log (snd (put_item_into_table self t k v datetime_now w))
      = log w @ [''KEYSTORE - A new item has been added to the table.'']"
proof (cases "map_of (tables w) (get_complete_name self (lower t))")
  case None
  then show ?thesis
    by (simp add: put_item_into_table_missing)
next
  case (Some items)
  then show ?thesis
    by (cases "valid_item \<lparr> key = k, datetime = datetime_now, info_value = v \<rparr>")
       (simp_all add: put_item_into_table_def truthy_def table_put_item_Some
          table_put_item_invalid log_info_def)
qed

lemma get_latest_item_value_log:
  "log (snd (get_latest_item_value self t k w)) = log w
 \<or> log (snd (get_latest_item_value self t k w))
      = log w @ [''KEYSTORE - No values found with provided key'']"
proof (cases "map_of (tables w) (get_complete_name self t)")
  case None
  then show ?thesis
    by (simp add: get_latest_item_value_missing)
next
  case (Some items)
  then show ?thesis
    by (cases "valid_partition_key k")
       (simp_all add: get_latest_item_value_page get_latest_item_value_invalid log_info_def
          split: list.splits)
qed

lemma get_items_greater_than_date_log:
  "log (snd (get_items_greater_than_date self t k D w)) = log w
 \<or> log (snd (get_items_greater_than_date self t k D w))
      = log w @ [''KEYSTORE - No values were found.'']"
proof (cases "strptime_Ymd D")
  case (Inl e)
  then show ?thesis
    by (simp add: get_items_greater_than_date_def)
next
  case (Inr d)
  show ?thesis
  proof (cases "map_of (tables w) (get_complete_name self t)")
    case None
    then show ?thesis
      by (simp add: get_items_greater_than_date_missing [OF _ Inr])
  next
    case (Some items)
    then show ?thesis
      by (cases "valid_partition_key k")
         (simp_all add: get_items_greater_than_date_page [OF _ Inr]
            get_items_greater_than_date_invalid [OF _ Inr] log_info_def)
  qed
qed

lemma export_data_to_csv_empty:
  assumes "map_of (tables w) (get_complete_name self t) = Some items"
    and "valid_partition_key k"
    and "take_page MAX_PAGE_BYTES (found_desc k None items) = []"
  shows "export_data_to_csv self t k csv_file_name w =
           (Inr (), log_info ''KEYSTORE - No values found with provided key'' w)"
proof -
  have "valid_key_condition k None"
    using assms(2) by (simp add: valid_key_condition_def)
  then show ?thesis
    using assms(1,3) by (simp add: export_data_to_csv_def truthy_def table_query_desc_Some)
qed

lemma export_data_to_csv_invalid:
  "map_of (tables w) (get_complete_name self t) = Some items \<Longrightarrow> \<not> valid_partition_key k \<Longrightarrow>
   export_data_to_csv self t k csv_file_name w = (Inl ValidationException, w)"
  by (simp add: export_data_to_csv_def truthy_def table_query_desc_invalid
      valid_key_condition_def)

lemma export_data_to_csv_log:
  "log (snd (export_data_to_csv self t k csv_file_name w)) = log w
 \<or> log (snd (export_data_to_csv self t k csv_file_name w))
      = log w @ [''KEYSTORE - No values found with provided key'']
 \<or> log (snd (export_data_to_csv self t k csv_file_name w))
      = log w @ [''KEYSTORE - CSV File: '' @ csv_file_name @ '' has been exported.'']"
proof (cases "map_of (tables w) (get_complete_name self t)")
  case None
  then show ?thesis
    by (simp add: export_data_to_csv_missing)
next
  case (Some items)
  show ?thesis
  proof (cases "valid_partition_key k")
    case False
    with Some show ?thesis
      by (simp add: export_data_to_csv_invalid)
  next
    case True
    show ?thesis
    proof (cases "take_page MAX_PAGE_BYTES (found_desc k None items)")
      case Nil
      then show ?thesis
        by (simp add: export_data_to_csv_empty [OF Some True] log_info_def)
    next
      case (Cons it rest)
      then show ?thesis
        by (simp add: export_data_to_csv_page [OF Some True] log_info_def
            del: replicate.simps)
    qed
  qed
qed

text \<open>
  Claim C9. \<^verbatim>\<open>get_table_resource\<close> builds the handle from the resolved name alone,
  without consulting the database, and the handle is truthy. So when the backing
  table is absent, \<^verbatim>\<open>put_item_into_table\<close>, \<^verbatim>\<open>get_latest_item_value\<close>,
  \<^verbatim>\<open>get_items_greater_than_date\<close> (once its date has parsed) and
  \<^verbatim>\<open>export_data_to_csv\<close> send their request and end with the service's
  \<^verbatim>\<open>ResourceNotFoundException\<close>, the state unchanged and nothing logged; and in no
  state does any of them log that the provided table does not exist.
\<close>

theorem missing_table_branch_unreachable:
  "get_table_resource self t = Table (get_complete_name self t)
 \<and> truthy (get_table_resource self t)
 \<and> (map_of (tables w) (get_complete_name self (lower t)) = None
      \<longrightarrow> put_item_into_table self t k v datetime_now w = (Inl ResourceNotFoundException, w))
 \<and> (map_of (tables w) (get_complete_name self t) = None
      \<longrightarrow> get_latest_item_value self t k w = (Inl ResourceNotFoundException, w)
        \<and> export_data_to_csv self t k csv_file_name w = (Inl ResourceNotFoundException, w)
        \<and> (\<forall>d. strptime_Ymd D = Inr d
              \<longrightarrow> get_items_greater_than_date self t k D w = (Inl ResourceNotFoundException, w)))
 \<and> (''KEYSTORE - Provided table does not exist.'' \<notin> set (log w)
      \<longrightarrow> ''KEYSTORE - Provided table does not exist.''
            \<notin> set (log (snd (put_item_into_table self t k v datetime_now w))))
 \<and> (''KEYSTORE - Provided table does not exist in the database.'' \<notin> set (log w)
      \<longrightarrow> ''KEYSTORE - Provided table does not exist in the database.''
            \<notin> set (log (snd (get_latest_item_value self t k w)))
        \<and> ''KEYSTORE - Provided table does not exist in the database.''
            \<notin> set (log (snd (get_items_greater_than_date self t k D w)))
        \<and> ''KEYSTORE - Provided table does not exist in the database.''
            \<notin> set (log (snd (export_data_to_csv self t k csv_file_name w))))"
proof -
  have handle: "get_table_resource self t = Table (get_complete_name self t)"
    "truthy (get_table_resource self t)"
    by (simp_all add: get_table_resource_def truthy_def)
  have put_log: "''KEYSTORE - Provided table does not exist.''
            \<notin> set (log (snd (put_item_into_table self t k v datetime_now w)))"
    if "''KEYSTORE - Provided table does not exist.'' \<notin> set (log w)"
    using that put_item_into_table_log [of self t k v datetime_now w] by auto
  have read_log: "''KEYSTORE - Provided table does not exist in the database.''
            \<notin> set (log (snd (get_latest_item_value self t k w)))"
      "''KEYSTORE - Provided table does not exist in the database.''
            \<notin> set (log (snd (get_items_greater_than_date self t k D w)))"
      "''KEYSTORE - Provided table does not exist in the database.''
            \<notin> set (log (snd (export_data_to_csv self t k csv_file_name w)))"
    if "''KEYSTORE - Provided table does not exist in the database.'' \<notin> set (log w)"
    using that get_latest_item_value_log [of self t k w]
      get_items_greater_than_date_log [of self t k D w]
      export_data_to_csv_log [of self t k csv_file_name w]
    by auto
  show ?thesis
    using handle put_log read_log
    by (simp add: put_item_into_table_missing get_latest_item_value_missing
        get_items_greater_than_date_missing export_data_to_csv_missing)
qed

lemma missing_complete_name:
  "get_complete_name dev_db ''missing'' = ''missing_dev''"
  "get_complete_name dev_db (lower ''missing'') = ''missing_dev''"
  by (simp_all add: get_complete_name_def suffix_dev_db endswith_def lower_def lower_char_def
      is_upper_def less_eq_char_def)

theorem missing_table_branch_unreachable_witness:
  "truthy (get_table_resource dev_db ''missing'')
 \<and> map_of (tables orders_world) (get_complete_name dev_db (lower ''missing'')) = None
 \<and> map_of (tables orders_world) (get_complete_name dev_db ''missing'') = None
 \<and> put_item_into_table dev_db ''missing'' ''k'' ''v'' ''2023-01-03T09:15:00-06:00'' orders_world
      = (Inl ResourceNotFoundException, orders_world)
 \<and> get_latest_item_value dev_db ''missing'' ''k'' orders_world
      = (Inl ResourceNotFoundException, orders_world)
 \<and> export_data_to_csv dev_db ''missing'' ''k'' ''out.csv'' orders_world
      = (Inl ResourceNotFoundException, orders_world)
 \<and> get_items_greater_than_date dev_db ''missing'' ''k'' ''20230102'' orders_world
      = (Inl ResourceNotFoundException, orders_world)
 \<and> log (snd (put_item_into_table dev_db ''missing'' ''k'' ''v'' ''2023-01-03T09:15:00-06:00''
               orders_world)) = []"
proof -
  have none: "map_of (tables orders_world) (get_complete_name dev_db (lower ''missing'')) = None"
    "map_of (tables orders_world) (get_complete_name dev_db ''missing'') = None"
    by (simp_all add: missing_complete_name orders_world_def)
  have parse: "\<exists>d. strptime_Ymd ''20230102'' = Inr d"
    using strptime_Ymd_yyyymmdd(1) [OF is_yyyymmdd_20230102] by blast
  have quiet: "log orders_world = []"
    by (simp add: orders_world_def)
  show ?thesis
    using missing_table_branch_unreachable [of dev_db "''missing''" orders_world "''k''" "''v''"
        "''2023-01-03T09:15:00-06:00''" "''out.csv''" "''20230102''"] none parse quiet
    by auto
qed

section \<open>Names with uppercase letters\<close>

lemma lower_char_upper: "is_upper c \<Longrightarrow> lower_char c \<noteq> c"
proof
  assume up: "is_upper c" and eq: "lower_char c = c"
  from up have r: "65 \<le> (of_char c :: nat)" "(of_char c :: nat) \<le> 90"
    by (simp_all add: is_upper_def less_eq_char_def)
  then have "(of_char (char_of (of_char c + (32::nat))) :: nat) = of_char c + 32"
    by simp
  moreover from up eq have "char_of (of_char c + (32::nat)) = c"
    by (simp add: lower_char_def)
  ultimately have "(of_char c :: nat) = of_char c + 32"
    by (simp only:)
  then show False
    by simp
qed

lemma lower_changes: "\<exists>c\<in>set t. is_upper c \<Longrightarrow> lower t \<noteq> t"
proof
  assume "\<exists>c\<in>set t. is_upper c" and "lower t = t"
  then obtain c where c: "c \<in> set t" "is_upper c"
    by blast
  from \<open>lower t = t\<close> have "map lower_char t = map id t"
    by (simp add: lower_def)
  then have "lower_char c = id c"
    using c(1) by (simp only: map_eq_conv)
  with lower_char_upper [OF c(2)] show False
    by simp
qed

lemma length_lower [simp]: "length (lower t) = length t"
  by (simp add: lower_def)

lemma complete_name_lower_differs:
  assumes "\<exists>c\<in>set t. is_upper c"
  shows "get_complete_name self (lower t) \<noteq> get_complete_name self t"
proof
  assume eq: "get_complete_name self (lower t) = get_complete_name self t"
  have ne: "lower t \<noteq> t"
    by (rule lower_changes [OF assms])
  have len: "length (get_complete_name self (lower t)) = length (get_complete_name self t)"
    by (simp add: eq)
  show False
  proof (cases "endswith (lower t) (suffix self)")
    case True
    show ?thesis
    proof (cases "endswith t (suffix self)")
      case True
      with \<open>endswith (lower t) (suffix self)\<close> eq ne show ?thesis
        by (simp add: get_complete_name_def)
    next
      case False
      with True len have "suffix self = []"
        by (simp add: get_complete_name_def)
      with False show ?thesis
        by (simp add: endswith_def)
    qed
  next
    case False
    show ?thesis
    proof (cases "endswith t (suffix self)")
      case True
      with False len have "suffix self = []"
        by (simp add: get_complete_name_def)
      with False show ?thesis
        by (simp add: endswith_def)
    next
      case f: False
      with False eq ne show ?thesis
        by (simp add: get_complete_name_def)
    qed
  qed
qed

lemma tables_put_item_into_table:
  "tables (snd (put_item_into_table self t k v datetime_now w)) =
     (case map_of (tables w) (get_complete_name self (lower t)) of
        None \<Rightarrow> tables w
      | Some items \<Rightarrow>
          if \<not> valid_item \<lparr> key = k, datetime = datetime_now, info_value = v \<rparr>
          then tables w
          else
            AList.update (get_complete_name self (lower t))
              (\<lparr> key = k, datetime = datetime_now, info_value = v \<rparr>
               # filter (\<lambda>j. \<not> same_primary_key j
                                \<lparr> key = k, datetime = datetime_now, info_value = v \<rparr>) items)
              (tables w))"
proof (cases "map_of (tables w) (get_complete_name self (lower t))")
  case None
  then show ?thesis
    by (simp add: put_item_into_table_missing)
next
  case (Some items)
  then show ?thesis
    by (cases "valid_item \<lparr> key = k, datetime = datetime_now, info_value = v \<rparr>")
       (simp_all add: put_item_into_table_def truthy_def table_put_item_Some
          table_put_item_invalid log_info_def)
qed

lemma tables_create_table:
  "tables (snd (create_table self t w)) =
     (if get_complete_name self (lower t) \<in> set (tables_all w) then tables w
      else tables w @ [(get_complete_name self (lower t), [])])"
  by (simp add: create_table_def if_table_exists_def dynamodb_create_table_def log_info_def
      Let_def)

lemma tables_delete_table:
  "tables (snd (delete_table self t w)) = AList.delete (get_complete_name self t) (tables w)"
proof (cases "get_complete_name self t \<in> set (tables_all w)")
  case True
  then show ?thesis
    by (simp add: delete_table_def if_table_exists_def dynamodb_delete_table_def log_info_def
        Let_def)
next
  case False
  then have "AList.delete (get_complete_name self t) (tables w) = tables w"
    by (simp add: delete_id tables_all_def)
  with False show ?thesis
    by (simp add: delete_table_def if_table_exists_def log_info_def Let_def)
qed

lemma map_of_other_create:
  "n \<noteq> m \<Longrightarrow> map_of (xs @ [(m, v)]) n = map_of xs n"
  by (simp add: map_add_def split: option.splits)

text \<open>
  Claim C10. For a table name with an uppercase letter, the name that
  \<^verbatim>\<open>create_table\<close> and \<^verbatim>\<open>put_item_into_table\<close> resolve (lowered first) differs
  from the name that \<^verbatim>\<open>if_table_exists\<close>, \<^verbatim>\<open>delete_table\<close>,
  \<^verbatim>\<open>get_latest_item_value\<close>, \<^verbatim>\<open>get_items_greater_than_date\<close> and
  \<^verbatim>\<open>export_data_to_csv\<close> resolve (as supplied). Creation makes the lowered table
  exist and a write that the service accepts puts its item there, both leaving
  the table of the supplied name as it was; existence and deletion concern the
  supplied name. The three reads query the table of the supplied name: when it
  is absent they end with the service's error, and when it is present what they
  return, and what the export writes with that name in the first column, is the
  page of its items. So a write under such a name never changes what
  \<^verbatim>\<open>get_latest_item_value\<close> returns for it.
\<close>

theorem mixed_case_names_address_two_tables:
  fixes self :: DynamoDbDatabase and t k v datetime_now D csv_file_name :: string and w :: world
  assumes up: "\<exists>c\<in>set t. is_upper c"
  defines "written \<equiv> get_complete_name self (lower t)"
    and "addressed \<equiv> get_complete_name self t"
    and "new \<equiv> \<lparr> key = k, datetime = datetime_now, info_value = v \<rparr>"
  shows "written \<noteq> addressed
       \<and> written \<in> set (tables_all (snd (create_table self t w)))
       \<and> map_of (tables (snd (create_table self t w))) addressed = map_of (tables w) addressed
       \<and> (\<forall>items. map_of (tables w) written = Some items \<and> valid_item new \<longrightarrow>
             map_of (tables (snd (put_item_into_table self t k v datetime_now w))) written
               = Some (new # filter (\<lambda>j. \<not> same_primary_key j new) items))
       \<and> map_of (tables (snd (put_item_into_table self t k v datetime_now w))) addressed
            = map_of (tables w) addressed
       \<and> (if_table_exists self t w \<longleftrightarrow> addressed \<in> set (tables_all w))
       \<and> map_of (tables (snd (delete_table self t w))) = (map_of (tables w))(addressed := None)
       \<and> (map_of (tables w) addressed = None \<longrightarrow>
             fst (get_latest_item_value self t k w) = Inl ResourceNotFoundException
           \<and> fst (export_data_to_csv self t k csv_file_name w) = Inl ResourceNotFoundException
           \<and> (\<forall>d. strptime_Ymd D = Inr d \<longrightarrow>
                 fst (get_items_greater_than_date self t k D w) = Inl ResourceNotFoundException))
       \<and> (\<forall>items. map_of (tables w) addressed = Some items \<and> valid_partition_key k \<longrightarrow>
             fst (get_latest_item_value self t k w)
               = (case take_page MAX_PAGE_BYTES (found_desc k None items) of
                    [] \<Rightarrow> Inr None
                  | it # _ \<Rightarrow> Inr (Some (info_value it)))
           \<and> (\<forall>d. strptime_Ymd D = Inr d \<longrightarrow>
                 fst (get_items_greater_than_date self t k D w)
                   = Inr (if take_page MAX_PAGE_BYTES (found_desc k (Some (isoformat d)) items) = []
                          then None
                          else Some (take_page MAX_PAGE_BYTES
                                       (found_desc k (Some (isoformat d)) items))))
           \<and> (\<forall>it rest. take_page MAX_PAGE_BYTES (found_desc k None items) = it # rest
                   \<and> csv_file_name \<in> set (writable w) \<longrightarrow>
                 fst (export_data_to_csv self t k csv_file_name w) = Inr ()
               \<and> map_of (files (snd (export_data_to_csv self t k csv_file_name w))) csv_file_name
                   = Some ([''table'', ''key'', ''value'', ''datetime_yyyymmdd'']
                           # replicate (Suc (length rest))
                               [addressed, key it, info_value it, datetime it])))
       \<and> fst (get_latest_item_value self t k (snd (put_item_into_table self t k v datetime_now w)))
            = fst (get_latest_item_value self t k w)"
proof -
  let ?w1 = "snd (put_item_into_table self t k v datetime_now w)"
  have ne: "written \<noteq> addressed"
    unfolding written_def addressed_def by (rule complete_name_lower_differs [OF up])
  then have ne': "addressed \<noteq> written"
    by simp
  have created: "written \<in> set (tables_all (snd (create_table self t w)))"
    by (simp add: tables_all_def tables_create_table written_def)
  have create_other:
    "map_of (tables (snd (create_table self t w))) addressed = map_of (tables w) addressed"
    using ne' by (simp add: tables_create_table written_def [symmetric] map_of_other_create
        del: map_of_append)
  have put_written: "\<forall>items. map_of (tables w) written = Some items \<and> valid_item new \<longrightarrow>
             map_of (tables ?w1) written
               = Some (new # filter (\<lambda>j. \<not> same_primary_key j new) items)"
    by (simp add: tables_put_item_into_table written_def [symmetric] new_def [symmetric]
        update_conv')
  have put_other: "map_of (tables ?w1) addressed = map_of (tables w) addressed"
    using ne'
    by (simp add: tables_put_item_into_table written_def [symmetric] update_conv'
        split: option.splits)
  have exists: "if_table_exists self t w \<longleftrightarrow> addressed \<in> set (tables_all w)"
    by (simp add: if_table_exists_def addressed_def)
  have deleted:
    "map_of (tables (snd (delete_table self t w))) = (map_of (tables w))(addressed := None)"
    by (simp add: tables_delete_table delete_conv' addressed_def)
  have absent: "map_of (tables w) addressed = None \<longrightarrow>
             fst (get_latest_item_value self t k w) = Inl ResourceNotFoundException
           \<and> fst (export_data_to_csv self t k csv_file_name w) = Inl ResourceNotFoundException
           \<and> (\<forall>d. strptime_Ymd D = Inr d \<longrightarrow>
                 fst (get_items_greater_than_date self t k D w) = Inl ResourceNotFoundException)"
    by (simp add: addressed_def get_latest_item_value_missing export_data_to_csv_missing
        get_items_greater_than_date_missing)
  have latest: "fst (get_latest_item_value self t k w')
               = (case take_page MAX_PAGE_BYTES (found_desc k None items) of
                    [] \<Rightarrow> Inr None
                  | it # _ \<Rightarrow> Inr (Some (info_value it)))"
    if "map_of (tables w') addressed = Some items" "valid_partition_key k" for w' items
    using that
    by (simp add: addressed_def get_latest_item_value_page split: list.splits)
  have range: "\<forall>d. strptime_Ymd D = Inr d \<longrightarrow>
                 fst (get_items_greater_than_date self t k D w)
                   = Inr (if take_page MAX_PAGE_BYTES (found_desc k (Some (isoformat d)) items) = []
                          then None
                          else Some (take_page MAX_PAGE_BYTES
                                       (found_desc k (Some (isoformat d)) items)))"
    if "map_of (tables w) addressed = Some items" "valid_partition_key k" for items
    using that
    by (simp add: addressed_def get_items_greater_than_date_page)
  have export: "\<forall>it rest. take_page MAX_PAGE_BYTES (found_desc k None items) = it # rest
                   \<and> csv_file_name \<in> set (writable w) \<longrightarrow>
                 fst (export_data_to_csv self t k csv_file_name w) = Inr ()
               \<and> map_of (files (snd (export_data_to_csv self t k csv_file_name w))) csv_file_name
                   = Some ([''table'', ''key'', ''value'', ''datetime_yyyymmdd'']
                           # replicate (Suc (length rest))
                               [addressed, key it, info_value it, datetime it])"
    if "map_of (tables w) addressed = Some items" "valid_partition_key k" for items
    using that
    by (simp add: addressed_def export_data_to_csv_page log_info_def update_conv'
        del: replicate.simps)
  have present: "\<forall>items. map_of (tables w) addressed = Some items \<and> valid_partition_key k \<longrightarrow>
             fst (get_latest_item_value self t k w)
               = (case take_page MAX_PAGE_BYTES (found_desc k None items) of
                    [] \<Rightarrow> Inr None
                  | it # _ \<Rightarrow> Inr (Some (info_value it)))
           \<and> (\<forall>d. strptime_Ymd D = Inr d \<longrightarrow>
                 fst (get_items_greater_than_date self t k D w)
                   = Inr (if take_page MAX_PAGE_BYTES (found_desc k (Some (isoformat d)) items) = []
                          then None
                          else Some (take_page MAX_PAGE_BYTES
                                       (found_desc k (Some (isoformat d)) items))))
           \<and> (\<forall>it rest. take_page MAX_PAGE_BYTES (found_desc k None items) = it # rest
                   \<and> csv_file_name \<in> set (writable w) \<longrightarrow>
                 fst (export_data_to_csv self t k csv_file_name w) = Inr ()
               \<and> map_of (files (snd (export_data_to_csv self t k csv_file_name w))) csv_file_name
                   = Some ([''table'', ''key'', ''value'', ''datetime_yyyymmdd'']
                           # replicate (Suc (length rest))
                               [addressed, key it, info_value it, datetime it]))"
    using latest [of w] range export by blast
  have unseen: "fst (get_latest_item_value self t k ?w1) = fst (get_latest_item_value self t k w)"
  proof (cases "map_of (tables w) addressed")
    case None
    with put_other show ?thesis
      by (simp add: addressed_def get_latest_item_value_missing)
  next
    case (Some items)
    show ?thesis
    proof (cases "valid_partition_key k")
      case True
      with Some put_other show ?thesis
        using latest [of ?w1 items] latest [of w items] by simp
    next
      case False
      with Some put_other show ?thesis
        by (simp add: addressed_def get_latest_item_value_invalid)
    qed
  qed
  show ?thesis
    by (intro conjI ne created create_other put_written put_other exists deleted absent
        present unseen)
qed

lemma valid_seen_item: "valid_item seen_item"
  by (simp add: seen_item_def valid_item_def valid_partition_key_def valid_sort_key_def
      item_size_def MAX_PARTITION_KEY_BYTES_def MAX_SORT_KEY_BYTES_def MAX_ITEM_BYTES_def)

lemma page_seen_item:
  "take_page MAX_PAGE_BYTES (found_desc ''o1'' None [seen_item]) = [seen_item]"
  by (simp add: found_desc_def key_condition_None seen_item_def item_size_def
      MAX_PAGE_BYTES_def)

theorem mixed_case_names_address_two_tables_witness:
  "(\<exists>c\<in>set ''Orders''. is_upper c)
 \<and> get_complete_name dev_db (lower ''Orders'') = ''orders_dev''
 \<and> get_complete_name dev_db ''Orders'' = ''Orders_dev''
 \<and> map_of (tables mixed_world) ''orders_dev'' = Some []
 \<and> map_of (tables mixed_world) ''Orders_dev'' = Some [seen_item]
 \<and> map_of (tables (snd (put_item_into_table dev_db ''Orders'' ''o1'' ''100''
                           ''2023-01-03T09:15:00-06:00'' mixed_world))) ''orders_dev''
      = Some [\<lparr> key = ''o1'', datetime = ''2023-01-03T09:15:00-06:00'', info_value = ''100'' \<rparr>]
 \<and> map_of (tables (snd (put_item_into_table dev_db ''Orders'' ''o1'' ''100''
                           ''2023-01-03T09:15:00-06:00'' mixed_world))) ''Orders_dev''
      = Some [seen_item]
 \<and> fst (get_latest_item_value dev_db ''Orders'' ''o1''
          (snd (put_item_into_table dev_db ''Orders'' ''o1'' ''100''
                  ''2023-01-03T09:15:00-06:00'' mixed_world)))
      = Inr (Some ''seen'')
 \<and> map_of (files (snd (export_data_to_csv dev_db ''Orders'' ''o1'' ''out.csv'' mixed_world)))
      ''out.csv''
      = Some [[''table'', ''key'', ''value'', ''datetime_yyyymmdd''],
              [''Orders_dev'', ''o1'', ''seen'', ''2023-01-01T00:00:00'']]"
proof -
  have up: "\<exists>c\<in>set ''Orders''. is_upper c"
    by (simp add: is_upper_def less_eq_char_def)
  have names: "get_complete_name dev_db (lower ''Orders'') = ''orders_dev''"
    "get_complete_name dev_db ''Orders'' = ''Orders_dev''"
    by code_simp+
  have tabs: "map_of (tables mixed_world) ''orders_dev'' = Some []"
    "map_of (tables mixed_world) ''Orders_dev'' = Some [seen_item]"
    by (simp_all add: mixed_world_def)
  have vnew: "valid_item \<lparr> key = ''o1'', datetime = ''2023-01-03T09:15:00-06:00'',
                            info_value = ''100'' \<rparr>"
    by (simp add: valid_item_def valid_partition_key_def valid_sort_key_def item_size_def
        MAX_PARTITION_KEY_BYTES_def MAX_SORT_KEY_BYTES_def MAX_ITEM_BYTES_def)
  have can_open: "''out.csv'' \<in> set (writable mixed_world)"
    by (simp add: mixed_world_def)
  note inst = mixed_case_names_address_two_tables [OF up, where self = dev_db
        and w = mixed_world and k = "''o1''" and datetime_now = "''2023-01-03T09:15:00-06:00''"
        and v = "''100''" and D = "''20230102''" and csv_file_name = "''out.csv''",
        unfolded names]
  from inst tabs(1) vnew
  have a: "map_of (tables (snd (put_item_into_table dev_db ''Orders'' ''o1'' ''100''
                           ''2023-01-03T09:15:00-06:00'' mixed_world))) ''orders_dev''
      = Some [\<lparr> key = ''o1'', datetime = ''2023-01-03T09:15:00-06:00'', info_value = ''100'' \<rparr>]"
    by simp
  from inst tabs(2)
  have b: "map_of (tables (snd (put_item_into_table dev_db ''Orders'' ''o1'' ''100''
                           ''2023-01-03T09:15:00-06:00'' mixed_world))) ''Orders_dev''
      = Some [seen_item]"
    by simp
  from inst tabs(2) valid_key_o1
  have "fst (get_latest_item_value dev_db ''Orders'' ''o1'' mixed_world)
          = (case take_page MAX_PAGE_BYTES (found_desc ''o1'' None [seen_item]) of
               [] \<Rightarrow> Inr None
             | it # _ \<Rightarrow> Inr (Some (info_value it)))"
    by blast
  then have "fst (get_latest_item_value dev_db ''Orders'' ''o1'' mixed_world) = Inr (Some ''seen'')"
    by (simp add: page_seen_item) (simp add: seen_item_def)
  with inst
  have c: "fst (get_latest_item_value dev_db ''Orders'' ''o1''
          (snd (put_item_into_table dev_db ''Orders'' ''o1'' ''100''
                  ''2023-01-03T09:15:00-06:00'' mixed_world)))
      = Inr (Some ''seen'')"
    by simp
  from inst tabs(2) valid_key_o1 page_seen_item can_open
  have "map_of (files (snd (export_data_to_csv dev_db ''Orders'' ''o1'' ''out.csv'' mixed_world)))
      ''out.csv''
      = Some ([''table'', ''key'', ''value'', ''datetime_yyyymmdd'']
              # replicate (Suc (length ([] :: item list)))
                  [''Orders_dev'', key seen_item, info_value seen_item, datetime seen_item])"
    by blast
  then have d: "map_of (files (snd (export_data_to_csv dev_db ''Orders'' ''o1'' ''out.csv''
       mixed_world))) ''out.csv''
      = Some [[''table'', ''key'', ''value'', ''datetime_yyyymmdd''],
              [''Orders_dev'', ''o1'', ''seen'', ''2023-01-01T00:00:00'']]"
    by (simp add: seen_item_def)
  show ?thesis
    using up names tabs a b c d by (intro conjI)
qed

section \<open>CSV import\<close>

lemma import_loop_append:
  "import_loop self (pre @ rest) n w =
     (case import_loop self pre n w of
        (Inl e, w1) \<Rightarrow> (Inl e, w1)
      | (Inr n1, w1) \<Rightarrow> import_loop self rest n1 w1)"
proof (induction pre arbitrary: n w)
  case Nil
  then show ?case by simp
next
  case (Cons row pre)
  then show ?case
    by (simp split: prod.splits sum.splits)
qed

lemma create_table_succeeds: "\<exists>r. fst (create_table self t w) = Inr r"
  by (simp add: create_table_def if_table_exists_def dynamodb_create_table_def Let_def)

lemma create_table_keeps:
  "map_of (tables w) n = Some its \<Longrightarrow> map_of (tables (snd (create_table self t w))) n = Some its"
  by (simp add: tables_create_table map_add_def)

lemma files_create_table: "files (snd (create_table self t w)) = files w"
  by (simp add: create_table_def if_table_exists_def dynamodb_create_table_def Let_def
      log_info_def)

lemma import_row_Nil: "import_row self [] w = (Inl IndexError, w)"
  by (simp add: import_row_def index_def)

lemma import_row_Cons:
  "import_row self (r0 # cols) w =
     (case index (r0 # cols) 1 of
        Inl e \<Rightarrow> (Inl e, row_table_ensured self r0 w)
      | Inr k \<Rightarrow>
          (case index (r0 # cols) 2 of
             Inl e \<Rightarrow> (Inl e, row_table_ensured self r0 w)
           | Inr v \<Rightarrow>
               (case index (r0 # cols) 3 of
                  Inl e \<Rightarrow> (Inl e, row_table_ensured self r0 w)
                | Inr r3 \<Rightarrow>
                    (case strptime_Ymd r3 of
                       Inl e \<Rightarrow> (Inl e, row_table_ensured self r0 w)
                     | Inr d \<Rightarrow>
                         (case table_put_item (get_table_resource self (r0 @ suffix self))
                                 \<lparr> key = k, datetime = isoformat d, info_value = v \<rparr>
                                 (row_table_ensured self r0 w) of
                            (Inl e, w2) \<Rightarrow> (Inl e, w2)
                          | (Inr _, w2) \<Rightarrow>
                              (Inr (),
                               log_info (''KEYSTORE - Item: '' @ k @ '' has been added into ''
                                          @ (r0 @ suffix self) @ '' table.'') w2))))))"
proof -
  obtain r w' where c: "create_table self (r0 @ suffix self) w = (Inr r, w')"
    using create_table_succeeds [of self "r0 @ suffix self" w]
    by (cases "create_table self (r0 @ suffix self) w") auto
  have i0: "index (r0 # cols) 0 = Inr r0"
    by (simp add: index_def)
  show ?thesis
  proof (cases "if_table_exists self (r0 @ suffix self) w")
    case True
    then have e: "row_table_ensured self r0 w = w"
      by (simp add: row_table_ensured_def)
    show ?thesis
      unfolding e by (simp add: import_row_def i0 True Let_def split: sum.splits)
  next
    case False
    then have e: "row_table_ensured self r0 w = w'"
      by (simp add: row_table_ensured_def c)
    show ?thesis
      unfolding e by (simp add: import_row_def i0 False c Let_def split: sum.splits)
  qed
qed

lemma row_table_ensured_keeps:
  "map_of (tables w) n = Some its \<Longrightarrow> map_of (tables (row_table_ensured self r0 w)) n = Some its"
  by (simp add: row_table_ensured_def create_table_keeps)

lemma files_row_table_ensured: "files (row_table_ensured self r0 w) = files w"
  by (simp add: row_table_ensured_def files_create_table)

lemma import_row_short:
  assumes "length row < 4"
  shows "\<exists>w1. import_row self row w = (Inl IndexError, w1)
           \<and> (\<forall>n its. map_of (tables w) n = Some its \<longrightarrow> map_of (tables w1) n = Some its)"
proof (cases row)
  case Nil
  then show ?thesis
    by (simp add: import_row_Nil)
next
  case (Cons r0 cols)
  have "import_row self (r0 # cols) w = (Inl IndexError, row_table_ensured self r0 w)"
    using assms unfolding Cons import_row_Cons
    by (auto simp: index_def)
  then show ?thesis
    unfolding Cons using row_table_ensured_keeps [of w _ _ self r0] by blast
qed

lemma import_row_undated:
  assumes "4 \<le> length row" and "strptime_Ymd (row ! 3) = Inl ValueError"
  shows "\<exists>w1. import_row self row w = (Inl ValueError, w1)
           \<and> (\<forall>n its. map_of (tables w) n = Some its \<longrightarrow> map_of (tables w1) n = Some its)"
proof (cases row)
  case Nil
  with assms(1) show ?thesis
    by simp
next
  case (Cons r0 cols)
  have "import_row self (r0 # cols) w = (Inl ValueError, row_table_ensured self r0 w)"
    using assms unfolding Cons import_row_Cons
    by (auto simp: index_def)
  then show ?thesis
    unfolding Cons using row_table_ensured_keeps [of w _ _ self r0] by blast
qed

text \<open>The loop body reads the first four columns and no other.\<close>

lemma index_take: "i < n \<Longrightarrow> index (take n xs) i = index xs i"
  by (simp add: index_def)

lemma import_row_take_four: "import_row self (take 4 row) w = import_row self row w"
proof -
  have "index (take 4 row) 0 = index row 0" "index (take 4 row) 1 = index row 1"
    "index (take 4 row) 2 = index row 2" "index (take 4 row) 3 = index row 3"
    by (simp_all add: index_take)
  then show ?thesis
    unfolding import_row_def by (simp only:)
qed

lemma import_loop_take_four:
  "import_loop self (map (take 4) rows) n w = import_loop self rows n w"
  by (induction rows arbitrary: n w)
     (simp_all add: import_row_take_four split: prod.splits sum.splits)

text \<open>
  Claim C8, as the code has it. Rows are processed in order. Let the rows before
  a row have been imported. If that row has fewer than four columns it raises
  \<^verbatim>\<open>IndexError\<close>, and if it has four or more and a fourth column that
  \<^verbatim>\<open>strptime\<close> rejects it raises \<^verbatim>\<open>ValueError\<close>; in both cases the import ends
  with that error whatever rows follow, and every table stored before the row
  still holds the same items afterwards. Columns after the fourth are never
  read: a row, and a whole file, is imported as the same rows cut to four
  columns are.
\<close>

theorem import_aborts_at_short_or_undated_row:
  assumes csv: "map_of (files w) csv_file_name = Some (pre @ bad # post)"
    and pre: "import_loop self pre 0 w = (Inr n, w1)"
  shows "(length bad < 4 \<longrightarrow>
            (\<exists>w2. import_row self bad w1 = (Inl IndexError, w2)
               \<and> import_data_from_csv self csv_file_name w = (Inl IndexError, w2)
               \<and> (\<forall>n its. map_of (tables w1) n = Some its
                      \<longrightarrow> map_of (tables w2) n = Some its)))
       \<and> (4 \<le> length bad \<and> strptime_Ymd (bad ! 3) = Inl ValueError \<longrightarrow>
            (\<exists>w2. import_row self bad w1 = (Inl ValueError, w2)
               \<and> import_data_from_csv self csv_file_name w = (Inl ValueError, w2)
               \<and> (\<forall>n its. map_of (tables w1) n = Some its
                      \<longrightarrow> map_of (tables w2) n = Some its)))
       \<and> (\<forall>row w'. import_row self row w' = import_row self (take 4 row) w')
       \<and> (\<forall>rows m w'. import_loop self rows m w' = import_loop self (map (take 4) rows) m w')"
proof -
  have stop: "import_data_from_csv self csv_file_name w = (Inl e, w2)"
    if "import_row self bad w1 = (Inl e, w2)" for e w2
  proof -
    have "import_loop self (pre @ bad # post) 0 w = (Inl e, w2)"
      by (simp add: import_loop_append pre that)
    then show ?thesis
      by (simp add: import_data_from_csv_def csv)
  qed
  have short: "length bad < 4 \<longrightarrow>
            (\<exists>w2. import_row self bad w1 = (Inl IndexError, w2)
               \<and> import_data_from_csv self csv_file_name w = (Inl IndexError, w2)
               \<and> (\<forall>n its. map_of (tables w1) n = Some its
                      \<longrightarrow> map_of (tables w2) n = Some its))"
    using import_row_short [of bad self w1] stop by blast
  have undated: "4 \<le> length bad \<and> strptime_Ymd (bad ! 3) = Inl ValueError \<longrightarrow>
            (\<exists>w2. import_row self bad w1 = (Inl ValueError, w2)
               \<and> import_data_from_csv self csv_file_name w = (Inl ValueError, w2)
               \<and> (\<forall>n its. map_of (tables w1) n = Some its
                      \<longrightarrow> map_of (tables w2) n = Some its))"
    using import_row_undated [of bad self w1] stop by blast
  have row: "\<forall>row w'. import_row self row w' = import_row self (take 4 row) w'"
    by (simp add: import_row_take_four)
  have rows: "\<forall>rows m w'. import_loop self rows m w' = import_loop self (map (take 4) rows) m w'"
    by (simp add: import_loop_take_four)
  show ?thesis
    by (intro conjI short undated row rows)
qed

lemma strptime_Ymd_dashed: "strptime_Ymd ''2023-01-01'' = Inl ValueError"
  by (simp add: strptime_Ymd_def regex_Ymd_def directive_m_def two_chars_def one_char_def
      in_range_nat is_digit_nat)

lemma orders_dev_names:
  "lower ''orders_dev'' = ''orders_dev''"
  "get_complete_name dev_db ''orders_dev'' = ''orders_dev''"
  by (simp_all add: lower_def lower_char_def is_upper_def less_eq_char_def
      get_complete_name_def suffix_dev_db endswith_def)

text \<open>Importing a row for \<^verbatim>\<open>orders\<close> on a development host, the table absent or present.\<close>

lemma import_row_absent:
  assumes empty: "tables w = []"
    and low: "lower (r0 @ ''_dev'') = r0 @ ''_dev''"
    and parse: "strptime_Ymd D = Inr d" and iso: "isoformat d = s"
    and vit: "valid_item \<lparr> key = k, datetime = s, info_value = v \<rparr>"
  shows "import_row dev_db [r0, k, v, D] w =
      (Inr (),
       w\<lparr>tables := [(r0 @ ''_dev'', [\<lparr> key = k, datetime = s, info_value = v \<rparr>])],
         log := log w @ [''KEYSTORE - Table '' @ r0 @ ''_dev'' @ '' has been created.'',
                         ''KEYSTORE - Item: '' @ k @ '' has been added into '' @ r0 @ ''_dev''
                           @ '' table.'']\<rparr>)"
proof -
  let ?n = "r0 @ ''_dev''"
  let ?it = "\<lparr> key = k, datetime = s, info_value = v \<rparr>"
  let ?created = "log_info (''KEYSTORE - Table '' @ ?n @ '' has been created.'')
               (w\<lparr>tables := [(?n, [])]\<rparr>)"
  have nm: "get_complete_name dev_db ?n = ?n"
    using endswith_append [of r0 "''_dev''"] by (simp add: get_complete_name_def suffix_dev_db)
  have ens: "row_table_ensured dev_db r0 w = ?created"
    using empty
    by (simp add: row_table_ensured_def suffix_dev_db if_table_exists_def nm low
        tables_all_def create_table_def dynamodb_create_table_def Let_def)
  have put: "table_put_item (get_table_resource dev_db ?n) ?it w' =
      (Inr PutItemOutput, w'\<lparr>tables := [(?n, [?it])]\<rparr>)"
    if "tables w' = [(?n, [])]" for w'
    using vit that
    by (simp add: table_put_item_def get_table_resource_def nm)
  show ?thesis
    by (simp add: import_row_Cons index_def parse iso ens suffix_dev_db put log_info_def)
qed

lemma lower_orders_dev: "lower (''orders'' @ ''_dev'') = ''orders'' @ ''_dev''"
  by (simp add: lower_def lower_char_def is_upper_def less_eq_char_def)

lemma import_row_orders_absent:
  assumes empty: "tables w = []"
    and parse: "strptime_Ymd D = Inr d" and iso: "isoformat d = s"
    and vit: "valid_item \<lparr> key = k, datetime = s, info_value = v \<rparr>"
  shows "import_row dev_db [''orders'', k, v, D] w =
      (Inr (),
       w\<lparr>tables := [(''orders_dev'', [\<lparr> key = k, datetime = s, info_value = v \<rparr>])],
         log := log w @ [''KEYSTORE - Table orders_dev has been created.'',
                         ''KEYSTORE - Item: '' @ k @ '' has been added into orders_dev table.'']\<rparr>)"
  using import_row_absent [OF empty lower_orders_dev parse iso vit] by simp

lemma import_row_orders_present:
  assumes tab: "tables w = [(''orders_dev'', items)]"
    and parse: "strptime_Ymd D = Inr d" and iso: "isoformat d = s"
    and vit: "valid_item \<lparr> key = k, datetime = s, info_value = v \<rparr>"
  shows "import_row dev_db [''orders'', k, v, D] w =
      (Inr (),
       w\<lparr>tables := [(''orders_dev'',
             \<lparr> key = k, datetime = s, info_value = v \<rparr>
             # filter (\<lambda>j. \<not> same_primary_key j
                        \<lparr> key = k, datetime = s, info_value = v \<rparr>) items)],
         log := log w @ [''KEYSTORE - Item: '' @ k @ '' has been added into orders_dev table.'']\<rparr>)"
proof -
  let ?it = "\<lparr> key = k, datetime = s, info_value = v \<rparr>"
  have ens: "row_table_ensured dev_db ''orders'' w = w"
    using tab
    by (simp add: row_table_ensured_def suffix_dev_db if_table_exists_def orders_dev_names
        tables_all_def)
  have put: "table_put_item (get_table_resource dev_db ''orders_dev'') ?it w =
      (Inr PutItemOutput,
       w\<lparr>tables := [(''orders_dev'', ?it # filter (\<lambda>j. \<not> same_primary_key j ?it) items)]\<rparr>)"
    using vit tab
    by (simp add: table_put_item_def get_table_resource_def orders_dev_names)
  show ?thesis
    by (simp add: import_row_Cons index_def parse iso ens suffix_dev_db put)
       (simp add: log_info_def)
qed

lemma parse_20230101:
  "strptime_Ymd ''20230101''
     = Inr \<lparr> year = 2023, month = 1, day = 1, hour = 0, minute = 0, second = 0 \<rparr>"
  "isoformat \<lparr> year = 2023, month = 1, day = 1, hour = 0, minute = 0, second = 0 \<rparr>
     = ''2023-01-01T00:00:00''"
  using strptime_Ymd_yyyymmdd [OF is_yyyymmdd_20230101]
  by (simp_all add: number_def digit_val_def)

lemma parse_20230102:
  "strptime_Ymd ''20230102''
     = Inr \<lparr> year = 2023, month = 1, day = 2, hour = 0, minute = 0, second = 0 \<rparr>"
  "isoformat \<lparr> year = 2023, month = 1, day = 2, hour = 0, minute = 0, second = 0 \<rparr>
     = ''2023-01-02T00:00:00''"
  using strptime_Ymd_yyyymmdd [OF is_yyyymmdd_20230102]
  by (simp_all add: number_def digit_val_def)

lemma valid_small_item:
  "length k = 2 \<Longrightarrow> length d = 19 \<Longrightarrow> length v = 3 \<Longrightarrow>
   valid_item \<lparr> key = k, datetime = d, info_value = v \<rparr>"
  by (simp add: valid_item_def valid_partition_key_def valid_sort_key_def item_size_def
      MAX_PARTITION_KEY_BYTES_def MAX_SORT_KEY_BYTES_def MAX_ITEM_BYTES_def)

lemma import_first_row:
  "tables w = [] \<Longrightarrow>
   import_loop dev_db [[''orders'', ''o1'', ''100'', ''20230101'']] 0 w =
     (Inr 1,
      w\<lparr>tables := [(''orders_dev'',
            [\<lparr> key = ''o1'', datetime = ''2023-01-01T00:00:00'', info_value = ''100'' \<rparr>])],
        log := log w @ [''KEYSTORE - Table orders_dev has been created.'',
                        ''KEYSTORE - Item: o1 has been added into orders_dev table.'']\<rparr>)"
  using import_row_orders_absent [OF _ parse_20230101, of w "''o1''" "''100''"]
  by (simp add: valid_small_item)

theorem import_aborts_at_short_or_undated_row_witness:
  "map_of (files short_row_world) ''in.csv''
     = Some ([[''orders'', ''o1'', ''100'', ''20230101'']]
             @ [''orders'', ''o1''] # [[''orders'', ''o1'', ''150'', ''20230102'']])
 \<and> map_of (files undated_row_world) ''in.csv''
     = Some ([[''orders'', ''o1'', ''100'', ''20230101'']]
             @ [''orders'', ''o1'', ''125'', ''2023-01-01'']
               # [[''orders'', ''o1'', ''150'', ''20230102'']])
 \<and> length [''orders'', ''o1''] < 4
 \<and> 4 \<le> length [''orders'', ''o1'', ''125'', ''2023-01-01'']
 \<and> strptime_Ymd ([''orders'', ''o1'', ''125'', ''2023-01-01''] ! 3) = Inl ValueError
 \<and> fst (import_data_from_csv dev_db ''in.csv'' short_row_world) = Inl IndexError
 \<and> map_of (tables (snd (import_data_from_csv dev_db ''in.csv'' short_row_world))) ''orders_dev''
     = Some [\<lparr> key = ''o1'', datetime = ''2023-01-01T00:00:00'', info_value = ''100'' \<rparr>]
 \<and> fst (import_data_from_csv dev_db ''in.csv'' undated_row_world) = Inl ValueError
 \<and> map_of (tables (snd (import_data_from_csv dev_db ''in.csv'' undated_row_world))) ''orders_dev''
     = Some [\<lparr> key = ''o1'', datetime = ''2023-01-01T00:00:00'', info_value = ''100'' \<rparr>]"
proof -
  let ?pre = "[[''orders'', ''o1'', ''100'', ''20230101'']]"
  let ?short = "[''orders'', ''o1'']"
  let ?undated = "[''orders'', ''o1'', ''125'', ''2023-01-01'']"
  let ?post = "[[''orders'', ''o1'', ''150'', ''20230102'']]"
  let ?it = "\<lparr> key = ''o1'', datetime = ''2023-01-01T00:00:00'', info_value = ''100'' \<rparr>"
  have csv1: "map_of (files short_row_world) ''in.csv'' = Some (?pre @ ?short # ?post)"
    by (simp add: short_row_world_def)
  have csv2: "map_of (files undated_row_world) ''in.csv'' = Some (?pre @ ?undated # ?post)"
    by (simp add: undated_row_world_def)
  have pre1: "import_loop dev_db ?pre 0 short_row_world =
      (Inr 1, short_row_world\<lparr>tables := [(''orders_dev'', [?it])],
         log := log short_row_world @ [''KEYSTORE - Table orders_dev has been created.'',
                  ''KEYSTORE - Item: o1 has been added into orders_dev table.'']\<rparr>)"
    by (rule import_first_row) (simp add: short_row_world_def)
  have pre2: "import_loop dev_db ?pre 0 undated_row_world =
      (Inr 1, undated_row_world\<lparr>tables := [(''orders_dev'', [?it])],
         log := log undated_row_world @ [''KEYSTORE - Table orders_dev has been created.'',
                  ''KEYSTORE - Item: o1 has been added into orders_dev table.'']\<rparr>)"
    by (rule import_first_row) (simp add: undated_row_world_def)
  have short: "length ?short < 4"
    by simp
  have undated: "4 \<le> length ?undated \<and> strptime_Ymd (?undated ! 3) = Inl ValueError"
    by (simp add: strptime_Ymd_dashed)
  from import_aborts_at_short_or_undated_row [OF csv1 pre1] short
  obtain w2 where a: "import_data_from_csv dev_db ''in.csv'' short_row_world = (Inl IndexError, w2)"
    and ka: "\<forall>n its. map_of (tables (short_row_world\<lparr>tables := [(''orders_dev'', [?it])],
         log := log short_row_world @ [''KEYSTORE - Table orders_dev has been created.'',
                  ''KEYSTORE - Item: o1 has been added into orders_dev table.'']\<rparr>)) n = Some its
              \<longrightarrow> map_of (tables w2) n = Some its"
    by blast
  from import_aborts_at_short_or_undated_row [OF csv2 pre2] undated
  obtain w3 where b: "import_data_from_csv dev_db ''in.csv'' undated_row_world
                        = (Inl ValueError, w3)"
    and kb: "\<forall>n its. map_of (tables (undated_row_world\<lparr>tables := [(''orders_dev'', [?it])],
         log := log undated_row_world @ [''KEYSTORE - Table orders_dev has been created.'',
                  ''KEYSTORE - Item: o1 has been added into orders_dev table.'']\<rparr>)) n = Some its
              \<longrightarrow> map_of (tables w3) n = Some its"
    by blast
  have ta: "map_of (tables w2) ''orders_dev'' = Some [?it]"
    using ka by simp
  have tb: "map_of (tables w3) ''orders_dev'' = Some [?it]"
    using kb by simp
  show ?thesis
    using csv1 csv2 short undated a b ta tb by simp
qed

text \<open>
  The claim as stated fails for a row with a wrong column count above four: the
  columns after the fourth are never read, the row is imported and so is the
  row after it.
\<close>

theorem import_aborts_on_wrong_column_count_counterexample:
  "length [''orders'', ''o1'', ''100'', ''20230101'', ''extra''] \<noteq> 4
 \<and> map_of (files five_column_world) ''in.csv''
     = Some [[''orders'', ''o1'', ''100'', ''20230101'', ''extra''],
             [''orders'', ''o1'', ''150'', ''20230102'']]
 \<and> fst (import_data_from_csv dev_db ''in.csv'' five_column_world) = Inr ()
 \<and> tables (snd (import_data_from_csv dev_db ''in.csv'' five_column_world))
     = [(''orders_dev'',
         [\<lparr> key = ''o1'', datetime = ''2023-01-02T00:00:00'', info_value = ''150'' \<rparr>,
          \<lparr> key = ''o1'', datetime = ''2023-01-01T00:00:00'', info_value = ''100'' \<rparr>])]"
proof -
  let ?it1 = "\<lparr> key = ''o1'', datetime = ''2023-01-01T00:00:00'', info_value = ''100'' \<rparr>"
  let ?it2 = "\<lparr> key = ''o1'', datetime = ''2023-01-02T00:00:00'', info_value = ''150'' \<rparr>"
  let ?w1 = "five_column_world\<lparr>tables := [(''orders_dev'', [?it1])],
        log := log five_column_world @ [''KEYSTORE - Table orders_dev has been created.'',
                 ''KEYSTORE - Item: o1 has been added into orders_dev table.'']\<rparr>"
  let ?w2 = "?w1\<lparr>tables := [(''orders_dev'', [?it2, ?it1])],
        log := log ?w1 @ [''KEYSTORE - Item: o1 has been added into orders_dev table.'']\<rparr>"
  have csv: "map_of (files five_column_world) ''in.csv''
     = Some [[''orders'', ''o1'', ''100'', ''20230101'', ''extra''],
             [''orders'', ''o1'', ''150'', ''20230102'']]"
    by (simp add: five_column_world_def)
  have "import_row dev_db (take 4 [''orders'', ''o1'', ''100'', ''20230101'', ''extra''])
          five_column_world = (Inr (), ?w1)"
    using import_row_orders_absent [OF _ parse_20230101, of five_column_world "''o1''" "''100''"]
    by (simp add: valid_small_item five_column_world_def)
  then have r1: "import_row dev_db [''orders'', ''o1'', ''100'', ''20230101'', ''extra'']
          five_column_world = (Inr (), ?w1)"
    by (simp only: import_row_take_four)
  have r2: "import_row dev_db [''orders'', ''o1'', ''150'', ''20230102''] ?w1 = (Inr (), ?w2)"
    using import_row_orders_present [OF _ parse_20230102, of ?w1 "[?it1]" "''o1''" "''150''"]
    by (simp add: valid_small_item same_primary_key_def)
  have "import_loop dev_db [[''orders'', ''o1'', ''100'', ''20230101'', ''extra''],
             [''orders'', ''o1'', ''150'', ''20230102'']] 0 five_column_world = (Inr 2, ?w2)"
    by (simp add: r1 r2)
  then have "import_data_from_csv dev_db ''in.csv'' five_column_world =
      (Inr (),
       log_info (''KEYSTORE - CSV File: '' @ ''in.csv''
                  @ '' content has been successfully imported into DynamoDb Tables.'') ?w2)"
    by (simp add: import_data_from_csv_def csv)
  then show ?thesis
    using csv by (simp add: log_info_def)
qed

section \<open>Where the code departs from its own naming and missing-table handling\<close>

text \<open>
  Claim C4 at a failing input. On a development host the name \<^verbatim>\<open>orders_dev\<close>
  already carries the suffix and \<^verbatim>\<open>get_complete_name\<close> returns it as it is, but
  \<^verbatim>\<open>import_data_from_csv\<close> appends the suffix to the first column without looking:
  the row's item ends up in a table named \<^verbatim>\<open>orders_dev_dev\<close>.
\<close>

theorem import_data_from_csv_doubles_suffix:
  "get_complete_name dev_db ''orders_dev'' = ''orders_dev''
 \<and> fst (import_data_from_csv dev_db ''in.csv'' suffixed_name_world) = Inr ()
 \<and> tables (snd (import_data_from_csv dev_db ''in.csv'' suffixed_name_world))
     = [(''orders_dev_dev'',
         [\<lparr> key = ''o1'', datetime = ''2023-01-01T00:00:00'', info_value = ''100'' \<rparr>])]"
proof -
  let ?it = "\<lparr> key = ''o1'', datetime = ''2023-01-01T00:00:00'', info_value = ''100'' \<rparr>"
  let ?done = "suffixed_name_world\<lparr>tables := [(''orders_dev_dev'', [?it])],
        log := log suffixed_name_world @
                 [''KEYSTORE - Table orders_dev_dev has been created.'',
                  ''KEYSTORE - Item: o1 has been added into orders_dev_dev table.'']\<rparr>"
  have csv: "map_of (files suffixed_name_world) ''in.csv''
               = Some [[''orders_dev'', ''o1'', ''100'', ''20230101'']]"
    by (simp add: suffixed_name_world_def)
  have empty: "tables suffixed_name_world = []"
    by (simp add: suffixed_name_world_def)
  have low: "lower (''orders_dev'' @ ''_dev'') = ''orders_dev'' @ ''_dev''"
    by (simp add: lower_def lower_char_def is_upper_def less_eq_char_def)
  have vit: "valid_item ?it"
    by (simp add: valid_small_item)
  have "import_row dev_db [''orders_dev'', ''o1'', ''100'', ''20230101''] suffixed_name_world
          = (Inr (), ?done)"
    using import_row_absent [OF empty low parse_20230101 vit] by simp
  then have "import_data_from_csv dev_db ''in.csv'' suffixed_name_world =
      (Inr (),
       log_info (''KEYSTORE - CSV File: '' @ ''in.csv''
                  @ '' content has been successfully imported into DynamoDb Tables.'') ?done)"
    by (simp add: import_data_from_csv_def csv)
  then show ?thesis
    using orders_dev_names(2) by (simp add: log_info_def)
qed

text \<open>
  Claim C5 at a failing input. \<^verbatim>\<open>create_table\<close> lowers the name before resolving
  it and \<^verbatim>\<open>if_table_exists\<close> does not: after creating \<^verbatim>\<open>Orders\<close> in an empty
  database the table \<^verbatim>\<open>orders_dev\<close> exists and \<^verbatim>\<open>if_table_exists\<close> answers no
  for \<^verbatim>\<open>Orders\<close>.
\<close>

theorem create_table_then_if_table_exists_mixed_case:
  "create_table dev_db ''Orders'' empty_world
     = (Inr (Some (Table ''orders_dev'')),
        \<lparr> tables = [(''orders_dev'', [])], files = [], writable = [''out.csv''],
          log = [''KEYSTORE - Table orders_dev has been created.''] \<rparr>)
 \<and> \<not> if_table_exists dev_db ''Orders'' (snd (create_table dev_db ''Orders'' empty_world))"
  by code_simp

text \<open>
  Claim C7 at a failing input. With no table \<^verbatim>\<open>orders_dev\<close> in the database,
  \<^verbatim>\<open>put_item_into_table\<close> does not log and return \<^verbatim>\<open>None\<close>: the handle is truthy,
  the write is sent, and the call ends with the service's error, the log empty.
\<close>

theorem put_item_into_table_raises_on_missing_table:
  "\<not> if_table_exists dev_db ''orders'' empty_world
 \<and> put_item_into_table dev_db ''orders'' ''o1'' ''100'' ''2023-01-03T09:15:00-06:00'' empty_world
     = (Inl ResourceNotFoundException, empty_world)
 \<and> log empty_world = []"
  by code_simp

end
